theory Spec2Isabelle
  imports Complex_Main
begin

text \<open>
  A shallow embedding of the render pipeline of the charting library: the line renderer
  (\<^verbatim>\<open>drawLine\<close>, \<^verbatim>\<open>setLineStyle\<close>), the base class of the series pane views with its two
  dirty flags, the text colour of the price axis view, and the chart widget, which merges
  invalidation masks, schedules one paint per animation frame, lays the panes out and
  draws. Each method is a function on the state it reads and writes; a method that can
  throw returns a sum. The definitions come first, then the properties.
\<close>

section \<open>JavaScript numbers\<close>

text \<open>
  The sources compute with the JavaScript \<^verbatim>\<open>number\<close> type. A number is modelled as a
  finite value or one of the three non-finite values. Finite values are exact rationals:
  the rounding error and the overflow of IEEE doubles, and the sign of zero, are left out.
  The non-finite values are kept, because the sources test for them (\<^verbatim>\<open>isFinite\<close>) and
  divide without a guard.
\<close>

datatype jsnum = Fin rat | PosInf | NegInf | NaN


text \<open>The infinity a non-zero finite factor selects; zero times infinity is \<open>NaN\<close>.\<close>

definition inf_of_sign :: "rat \<Rightarrow> jsnum" where
  "inf_of_sign r = (if 0 < r then PosInf else if r < 0 then NegInf else NaN)"

fun js_neg :: "jsnum \<Rightarrow> jsnum" where
  "js_neg (Fin a) = Fin (- a)"
| "js_neg PosInf = NegInf"
| "js_neg NegInf = PosInf"
| "js_neg NaN = NaN"

fun js_add :: "jsnum \<Rightarrow> jsnum \<Rightarrow> jsnum" where
  "js_add (Fin a) (Fin b) = Fin (a + b)"
| "js_add NaN _ = NaN"
| "js_add _ NaN = NaN"
| "js_add PosInf NegInf = NaN"
| "js_add NegInf PosInf = NaN"
| "js_add PosInf _ = PosInf"
| "js_add _ PosInf = PosInf"
| "js_add NegInf _ = NegInf"
| "js_add _ NegInf = NegInf"

definition js_sub :: "jsnum \<Rightarrow> jsnum \<Rightarrow> jsnum" where
  "js_sub a b = js_add a (js_neg b)"

fun js_mul :: "jsnum \<Rightarrow> jsnum \<Rightarrow> jsnum" where
  "js_mul (Fin a) (Fin b) = Fin (a * b)"
| "js_mul NaN _ = NaN"
| "js_mul _ NaN = NaN"
| "js_mul PosInf (Fin b) = inf_of_sign b"
| "js_mul NegInf (Fin b) = inf_of_sign (- b)"
| "js_mul (Fin a) PosInf = inf_of_sign a"
| "js_mul (Fin a) NegInf = inf_of_sign (- a)"
| "js_mul PosInf PosInf = PosInf"
| "js_mul NegInf NegInf = PosInf"
| "js_mul PosInf NegInf = NegInf"
| "js_mul NegInf PosInf = NegInf"

text \<open>Division by zero gives an infinity of the dividend's sign, and \<open>0 / 0\<close> is \<open>NaN\<close>.\<close>

fun js_div :: "jsnum \<Rightarrow> jsnum \<Rightarrow> jsnum" where
  "js_div (Fin a) (Fin b) = (if b = 0 then inf_of_sign a else Fin (a / b))"
| "js_div NaN _ = NaN"
| "js_div _ NaN = NaN"
| "js_div (Fin a) _ = Fin 0"
| "js_div PosInf (Fin b) = (if 0 \<le> b then PosInf else NegInf)"
| "js_div NegInf (Fin b) = (if 0 \<le> b then NegInf else PosInf)"
| "js_div PosInf PosInf = NaN"
| "js_div PosInf NegInf = NaN"
| "js_div NegInf PosInf = NaN"
| "js_div NegInf NegInf = NaN"

text \<open>The comparison \<^verbatim>\<open><\<close>: false whenever an operand is \<open>NaN\<close>.\<close>

fun js_lt :: "jsnum \<Rightarrow> jsnum \<Rightarrow> bool" where
  "js_lt (Fin a) (Fin b) = (a < b)"
| "js_lt NaN _ = False"
| "js_lt _ NaN = False"
| "js_lt _ NegInf = False"
| "js_lt NegInf _ = True"
| "js_lt PosInf _ = False"
| "js_lt _ PosInf = True"


text \<open>Strict equality \<^verbatim>\<open>===\<close> on numbers: \<open>NaN\<close> equals nothing, itself included.\<close>

definition js_eq :: "jsnum \<Rightarrow> jsnum \<Rightarrow> bool" where
  "js_eq a b = (a \<noteq> NaN \<and> a = b)"

text \<open>\<^verbatim>\<open>Math.max\<close> of two numbers: \<open>NaN\<close> as soon as one argument is.\<close>

definition js_max :: "jsnum \<Rightarrow> jsnum \<Rightarrow> jsnum" where
  "js_max a b = (if a = NaN \<or> b = NaN then NaN else if js_lt a b then b else a)"

text \<open>\<^verbatim>\<open>Math.round\<close>: the nearest integer, a tie going up; non-finite values are kept.\<close>

fun js_round :: "jsnum \<Rightarrow> jsnum" where
  "js_round (Fin a) = Fin (of_int \<lfloor>a + 1 / 2\<rfloor>)"
| "js_round x = x"


section \<open>Drawing a line\<close>












section \<open>Errors\<close>

text \<open>
  A failed assertion helper (\<^verbatim>\<open>ensureNotNull\<close>, \<^verbatim>\<open>ensureDefined\<close>) and a property access
  on a deleted object end the running method with an exception. A method that can end so
  returns \<open>error + 'a\<close>, \<open>Inl\<close> carrying the exception.
\<close>

datatype error = AssertionFailed | TypeError

definition bind_result :: "error + 'a \<Rightarrow> ('a \<Rightarrow> error + 'b) \<Rightarrow> error + 'b" where
  "bind_result r f = (case r of Inl e \<Rightarrow> Inl e | Inr x \<Rightarrow> f x)"

text \<open>
  Modelled from the spec: \<^verbatim>\<open>ensureNotNull\<close> of \<^verbatim>\<open>helpers/assertions\<close>, which is outside the
  sources. The spec's policy for programming misuse is to fail fast with an assertion
  where the invariant is first violated; a present value is passed through.
\<close>

definition ensureNotNull :: "'a option \<Rightarrow> error + 'a" where
  "ensureNotNull v = (case v of None \<Rightarrow> Inl AssertionFailed | Some x \<Rightarrow> Inr x)"

text \<open>Reading \<^verbatim>\<open>xs[i]\<close>: \<^verbatim>\<open>undefined\<close> past the end of the array.\<close>

definition nth_opt :: "'a list \<Rightarrow> nat \<Rightarrow> 'a option" where
  "nth_opt xs i = (if i < length xs then Some (xs ! i) else None)"

section \<open>The invalidation mask\<close>

text \<open>
  The class \<^verbatim>\<open>InvalidateMask\<close> and the enumeration \<^verbatim>\<open>InvalidationLevel\<close> of
  \<^verbatim>\<open>model/invalidate-mask\<close> are outside the sources; the chart widget constructs masks,
  merges them and reads them. Every definition of this section is modelled from the
  spec.
\<close>

text \<open>
  Modelled from the spec: the enumeration \<^verbatim>\<open>InvalidationLevel\<close>, which is missing. The spec
  gives the severity levels \<open>None < Light < Full\<close>.
\<close>

datatype InvalidationLevel = LevelNone | Light | Full

text \<open>
  Modelled from the spec: the order of the severity levels, which is missing, and the
  maximum of two levels in that order.
\<close>

fun level_rank :: "InvalidationLevel \<Rightarrow> nat" where
  "level_rank LevelNone = 0"
| "level_rank Light = 1"
| "level_rank Full = 2"

definition maxLevel :: "InvalidationLevel \<Rightarrow> InvalidationLevel \<Rightarrow> InvalidationLevel" where
  "maxLevel a b = (if level_rank a < level_rank b then b else a)"

text \<open>
  Modelled from the spec: the state of \<^verbatim>\<open>InvalidateMask\<close>, which is missing. The spec gives
  a global severity, per-pane state \<open>{level, autoscale}\<close> by pane index, unset for
  the panes no request names, and the global fit-content request.
\<close>

record PaneInvalidation =
  level :: InvalidationLevel
  autoScale :: bool

record InvalidateMask =
  globalLevel :: InvalidationLevel
  invalidatedPanes :: "nat \<Rightarrow> PaneInvalidation option"
  fitContent :: bool

text \<open>
  Modelled from the spec: the constructor of \<^verbatim>\<open>InvalidateMask\<close>, which is missing. A new
  mask has the given global severity, no pane set and no fit-content request.
\<close>

definition newInvalidateMask :: "InvalidationLevel \<Rightarrow> InvalidateMask" where
  "newInvalidateMask lvl =
     \<lparr>globalLevel = lvl, invalidatedPanes = (\<lambda>_. None), fitContent = False\<rparr>"

text \<open>
  Modelled from the spec: the union of the per-pane state at one pane index, which is
  missing. A pane set in one mask only keeps its state; a pane set in both keeps the
  higher level and the disjunction of the autoscale requests.
\<close>

definition mergePaneInvalidation ::
  "PaneInvalidation option \<Rightarrow> PaneInvalidation option \<Rightarrow> PaneInvalidation option" where
  "mergePaneInvalidation before other =
     (case other of
        None \<Rightarrow> before
      | Some q \<Rightarrow>
          (case before of
             None \<Rightarrow> Some q
           | Some p \<Rightarrow>
               Some \<lparr>level = maxLevel (level p) (level q),
                     autoScale = (autoScale p \<or> autoScale q)\<rparr>))"

text \<open>
  Modelled from the spec: \<^verbatim>\<open>InvalidateMask.merge\<close>, which is missing. The severity is the
  maximum of the two severities, the per-pane flags are the union by pane index, and the
  fit-content request is the disjunction.
\<close>

definition merge :: "InvalidateMask \<Rightarrow> InvalidateMask \<Rightarrow> InvalidateMask" where
  "merge self other =
     \<lparr>globalLevel = maxLevel (globalLevel self) (globalLevel other),
      invalidatedPanes =
        (\<lambda>i. mergePaneInvalidation (invalidatedPanes self i) (invalidatedPanes other i)),
      fitContent = (fitContent self \<or> fitContent other)\<rparr>"

text \<open>
  Modelled from the spec: \<^verbatim>\<open>InvalidateMask.fullInvalidation\<close> and
  \<^verbatim>\<open>InvalidateMask.getFitContent\<close>, which are missing: the mask's global severity and its
  fit-content request.
\<close>

definition fullInvalidation :: "InvalidateMask \<Rightarrow> InvalidationLevel" where
  "fullInvalidation m = globalLevel m"

definition getFitContent :: "InvalidateMask \<Rightarrow> bool" where
  "getFitContent m = fitContent m"

text \<open>
  Modelled from the spec: \<^verbatim>\<open>InvalidateMask.invalidateForPane\<close>, which is missing. It
  extracts the state of one pane, gives an unset pane the global severity, and never
  reports a pane below the global severity.
\<close>

definition invalidateForPane :: "InvalidateMask \<Rightarrow> nat \<Rightarrow> PaneInvalidation" where
  "invalidateForPane m paneIndex =
     (case invalidatedPanes m paneIndex of
        None \<Rightarrow> \<lparr>level = globalLevel m, autoScale = False\<rparr>
      | Some p \<Rightarrow> \<lparr>level = maxLevel (globalLevel m) (level p), autoScale = autoScale p\<rparr>)"

text \<open>The per-pane flag set of a mask: the panes whose autoscale request is set.\<close>

definition autoScalePanes :: "InvalidateMask \<Rightarrow> nat set" where
  "autoScalePanes m = {i. autoScale (invalidateForPane m i)}"

section \<open>The series pane view\<close>

text \<open>
  \<^verbatim>\<open>SeriesPaneViewBase\<close> is generic in its item type. The series, the chart model and the
  two scales are outside the sources, as are the subclasses that implement the abstract
  methods; what the view reads from them and what the abstract methods make of the item
  list are the fields of \<open>SeriesEnv\<close>. The types of the visible bars and of the item
  range are type parameters. \<open>viewCalls\<close> records the calls of the abstract methods,
  oldest first.
\<close>

datatype ViewCall = FillRawPoints | ConvertToCoordinates jsnum

record ('item, 'range) SeriesPaneViewBase =
  invalidated :: bool
  dataInvalidated :: bool
  items :: "'item list"
  itemsVisibleRange :: "'range option"
  viewCalls :: "ViewCall list"

record ('item, 'range, 'bars) SeriesEnv =
  timeScaleIsEmpty :: bool
  priceScaleIsEmpty :: bool
  visibleBars :: "'bars option"
  barsSize :: nat
  firstValue :: "jsnum option"
  visibleTimedValues :: "'item list \<Rightarrow> 'bars \<Rightarrow> 'range"
  fillRawPoints :: "'item list \<Rightarrow> 'item list"
  convertToCoordinates :: "jsnum \<Rightarrow> 'range option \<Rightarrow> 'item list \<Rightarrow> 'item list"

definition newSeriesPaneViewBase :: "('item, 'range) SeriesPaneViewBase" where
  "newSeriesPaneViewBase =
     \<lparr>invalidated = True, dataInvalidated = True, items = [],
      itemsVisibleRange = None, viewCalls = []\<rparr>"

definition update ::
  "string option \<Rightarrow> ('item, 'range) SeriesPaneViewBase \<Rightarrow> ('item, 'range) SeriesPaneViewBase" where
  "update updateType v =
     (let v1 = v\<lparr>invalidated := True\<rparr>
      in if updateType = Some ''data'' then v1\<lparr>dataInvalidated := True\<rparr> else v1)"

definition updatePoints ::
  "('item, 'range, 'bars) SeriesEnv \<Rightarrow> ('item, 'range) SeriesPaneViewBase
     \<Rightarrow> error + ('item, 'range) SeriesPaneViewBase" where
  "updatePoints env v =
     (if timeScaleIsEmpty env \<or> priceScaleIsEmpty env then Inr (v\<lparr>itemsVisibleRange := None\<rparr>)
      else
        (case visibleBars env of
           None \<Rightarrow> Inr (v\<lparr>itemsVisibleRange := None\<rparr>)
         | Some bars \<Rightarrow>
             if barsSize env = 0 then Inr (v\<lparr>itemsVisibleRange := None\<rparr>)
             else
               let v1 = v\<lparr>itemsVisibleRange := Some (visibleTimedValues env (items v) bars)\<rparr>
               in bind_result (ensureNotNull (firstValue env))
                    (\<lambda>fv. Inr (v1\<lparr>items := convertToCoordinates env fv (itemsVisibleRange v1) (items v1),
                                   viewCalls := viewCalls v1 @ [ConvertToCoordinates fv]\<rparr>))))"

definition makeValid ::
  "('item, 'range, 'bars) SeriesEnv \<Rightarrow> ('item, 'range) SeriesPaneViewBase
     \<Rightarrow> error + ('item, 'range) SeriesPaneViewBase" where
  "makeValid env v =
     (let v1 = (if dataInvalidated v
                then v\<lparr>items := fillRawPoints env (items v),
                       viewCalls := viewCalls v @ [FillRawPoints],
                       dataInvalidated := False\<rparr>
                else v)
      in if invalidated v1
         then bind_result (updatePoints env v1) (\<lambda>v2. Inr (v2\<lparr>invalidated := False\<rparr>))
         else Inr v1)"

section \<open>The price axis view\<close>

text \<open>
  \<^verbatim>\<open>parseRgb\<close> and \<^verbatim>\<open>rgbToBlackWhiteString\<close> of \<^verbatim>\<open>helpers/color\<close> are outside the sources
  and are parameters; the parser may reject its argument. The view keeps the common
  renderer data and its own dirty flag.
\<close>

record 'rgb ColorHelpers =
  parseRgb :: "string \<Rightarrow> error + 'rgb"
  rgbToBlackWhiteString :: "'rgb \<Rightarrow> jsnum \<Rightarrow> string"

record PriceAxisView =
  pav_coordinate :: jsnum
  pav_color :: string
  pav_background :: string
  pav_invalidated :: bool

definition newPriceAxisView :: PriceAxisView where
  "newPriceAxisView =
     \<lparr>pav_coordinate = Fin 0, pav_color = ''#FFF'', pav_background = ''#000'',
      pav_invalidated = True\<rparr>"

definition background :: "PriceAxisView \<Rightarrow> string" where
  "background v = pav_background v"

definition generateTextColor :: "'rgb ColorHelpers \<Rightarrow> PriceAxisView \<Rightarrow> string \<Rightarrow> error + string" where
  "generateTextColor helpers v color =
     bind_result (parseRgb helpers color)
       (\<lambda>rgb. let backColorBW = rgbToBlackWhiteString helpers rgb (Fin 160)
              in Inr (if backColorBW = ''black'' then ''white'' else ''black''))"

definition color :: "'rgb ColorHelpers \<Rightarrow> PriceAxisView \<Rightarrow> error + string" where
  "color helpers v = generateTextColor helpers v (background v)"

section \<open>The chart widget\<close>

text \<open>
  The chart model, the pane widgets, the separators, the time axis widget, the DOM and
  the window are outside the sources. A model pane is known by its identity. A pane
  widget is the state its setters write. What the widgets report (stretch factor, optimal
  sizes), the constant \<^verbatim>\<open>SEPARATOR_HEIGHT\<close> and the pane widget's constructor are the
  fields of \<open>Collaborators\<close>; \<open>optimalWidth\<close> is \<open>None\<close> for a pane widget without a price
  axis widget. Calls that only act on a collaborator are recorded in \<open>effects\<close>, oldest
  first. The window's pending animation-frame requests of this widget are \<open>rafQueue\<close>,
  and \<open>rafLast\<close> is the last handle the window issued: a request returns a fresh non-zero
  handle. The model's callbacks into the widget during a draw are not modelled.
\<close>

type_synonym Pane = nat

type_synonym Size = "jsnum \<times> jsnum"

type_synonym PaneSeparator = "nat \<times> nat"

record PaneWidget =
  pw_state :: "Pane option"
  pw_size :: "Size option"
  pw_priceAxisSize :: "jsnum option"

record ChartOptions =
  priceScalePosition :: string
  timeScaleVisible :: bool

record Collaborators =
  stretchFactor :: "PaneWidget \<Rightarrow> jsnum"
  optimalWidth :: "PaneWidget \<Rightarrow> jsnum option"
  optimalHeight :: jsnum
  SEPARATOR_HEIGHT :: jsnum
  newPaneWidget :: "Pane \<Rightarrow> PaneWidget"

datatype DomNode = PaneWidgetElement nat | SeparatorElement PaneSeparator

datatype Effect =
    ElementRemoveWheelListener
  | ModelUnsubscribeCrosshairMoved
  | ModelUnsubscribeOptionsApplied
  | ModelDestroy
  | TableRemoveChild DomNode
  | TableInsertBefore DomNode
  | PaneWidgetSubscribeClicked nat
  | PaneWidgetUnsubscribeClicked nat
  | PaneWidgetDestroy nat
  | PaneWidgetUpdatePriceAxisWidget nat
  | PaneWidgetPaint nat InvalidationLevel
  | SeparatorDestroy PaneSeparator
  | TimeAxisDestroy
  | TimeAxisSetDisplay string
  | TimeAxisSetSizes Size jsnum
  | TimeAxisUpdate
  | TimeAxisPaint InvalidationLevel
  | ParentRemoveChild
  | CrosshairMovedDestroy
  | ClickedDestroy
  | ElementSetSize jsnum jsnum
  | TableSetSize jsnum jsnum
  | TimeScaleFitContent
  | PaneMomentaryAutoScale Pane
  | ModelSetPaneHeight Pane jsnum
  | ModelSetWidth jsnum
  | PriceAxisWidthChangedFire jsnum

record ChartWidget =
  options :: ChartOptions
  paneWidgets :: "PaneWidget list"
  paneSeparators :: "PaneSeparator list"
  modelPanes :: "Pane list"
  drawRafId :: nat
  height :: jsnum
  width :: jsnum
  priceAxisWidth :: jsnum
  element :: bool
  parentElement :: bool
  invalidateMask :: "InvalidateMask option"
  drawPlanned :: bool
  rafQueue :: "nat list"
  rafLast :: nat
  effects :: "Effect list"

text \<open>The fields as their declarations initialise them, the element created.\<close>

definition newChartWidget :: "ChartOptions \<Rightarrow> Pane list \<Rightarrow> ChartWidget" where
  "newChartWidget opts panes =
     \<lparr>options = opts, paneWidgets = [], paneSeparators = [], modelPanes = panes,
      drawRafId = 0, height = Fin 0, width = Fin 0, priceAxisWidth = Fin 0,
      element = True, parentElement = False, invalidateMask = None, drawPlanned = False,
      rafQueue = [], rafLast = 0, effects = []\<rparr>"

definition emit :: "Effect list \<Rightarrow> ChartWidget \<Rightarrow> ChartWidget" where
  "emit es s = s\<lparr>effects := effects s @ es\<rparr>"

definition updateTimeAxisVisibility :: "ChartWidget \<Rightarrow> ChartWidget" where
  "updateTimeAxisVisibility s =
     (let display = (if timeScaleVisible (options s) then '''' else ''none'')
      in emit [TimeAxisSetDisplay display] s)"

definition destroySeparator :: "PaneSeparator \<Rightarrow> ChartWidget \<Rightarrow> ChartWidget" where
  "destroySeparator separator s =
     emit [TableRemoveChild (SeparatorElement separator), SeparatorDestroy separator] s"

subsection \<open>Layout\<close>

text \<open>The first loop of \<^verbatim>\<open>_adjustSizeImpl\<close>: the total stretch and the price axis width.\<close>

fun measurePanes ::
  "Collaborators \<Rightarrow> bool \<Rightarrow> PaneWidget list \<Rightarrow> jsnum \<Rightarrow> jsnum \<Rightarrow> error + (jsnum \<times> jsnum)" where
  "measurePanes env hasAxis [] totalStretch axisWidth = Inr (totalStretch, axisWidth)"
| "measurePanes env hasAxis (paneWidget # rest) totalStretch axisWidth =
     (if hasAxis then
        bind_result (ensureNotNull (optimalWidth env paneWidget))
          (\<lambda>ow. measurePanes env hasAxis rest
                   (js_add totalStretch (stretchFactor env paneWidget))
                   (js_max axisWidth ow))
      else measurePanes env hasAxis rest
             (js_add totalStretch (stretchFactor env paneWidget)) axisWidth)"

text \<open>The constants \<^verbatim>\<open>_adjustSizeImpl\<close> computes between its two loops.\<close>

record Layout =
  paneCount :: nat
  layoutPanes :: "Pane list"
  hasPriceAxis :: bool
  layoutPriceAxisWidth :: jsnum
  paneWidth :: jsnum
  timeAxisHeight :: jsnum
  totalPaneHeight :: jsnum
  stretchPixels :: jsnum

definition otherWidgetHeight :: "Collaborators \<Rightarrow> ChartWidget \<Rightarrow> jsnum" where
  "otherWidgetHeight env s =
     (let separatorCount = Fin (of_nat (length (paneSeparators s)));
          separatorHeight = SEPARATOR_HEIGHT env;
          separatorsHeight = js_mul separatorHeight separatorCount;
          timeAxisHeight' = (if timeScaleVisible (options s) then optimalHeight env else Fin 0)
      in js_add separatorsHeight timeAxisHeight')"

definition availablePaneHeight :: "Collaborators \<Rightarrow> ChartWidget \<Rightarrow> jsnum" where
  "availablePaneHeight env s =
     (if js_lt (height s) (otherWidgetHeight env s) then Fin 0
      else js_sub (height s) (otherWidgetHeight env s))"

definition layoutOf :: "Collaborators \<Rightarrow> ChartWidget \<Rightarrow> jsnum \<Rightarrow> jsnum \<Rightarrow> Layout" where
  "layoutOf env s totalStretch axisWidth =
     \<lparr>paneCount = length (paneWidgets s),
      layoutPanes = modelPanes s,
      hasPriceAxis = (priceScalePosition (options s) \<noteq> ''none''),
      layoutPriceAxisWidth = axisWidth,
      paneWidth = js_max (js_sub (width s) axisWidth) (Fin 0),
      timeAxisHeight = (if timeScaleVisible (options s) then optimalHeight env else Fin 0),
      totalPaneHeight = availablePaneHeight env s,
      stretchPixels = js_div (availablePaneHeight env s) totalStretch\<rparr>"

text \<open>The second loop of \<^verbatim>\<open>_adjustSizeImpl\<close>: state, height and sizes of each pane widget.\<close>

fun sizePanes ::
  "Collaborators \<Rightarrow> Layout \<Rightarrow> nat \<Rightarrow> PaneWidget list \<Rightarrow> jsnum \<Rightarrow> PaneWidget list \<times> Effect list" where
  "sizePanes env L paneIndex [] accumulatedHeight = ([], [])"
| "sizePanes env L paneIndex (paneWidget # rest) accumulatedHeight =
     (let pw1 = paneWidget\<lparr>pw_state := nth_opt (layoutPanes L) paneIndex\<rparr>;
          calculatePaneHeight =
            (if paneIndex = paneCount L - 1
             then js_sub (totalPaneHeight L) accumulatedHeight
             else js_round (js_mul (stretchFactor env pw1) (stretchPixels L)));
          paneHeight = js_max calculatePaneHeight (Fin 2);
          pw2 = pw1\<lparr>pw_size := Some (paneWidth L, paneHeight)\<rparr>;
          pw3 = (if hasPriceAxis L
                 then pw2\<lparr>pw_priceAxisSize := Some (layoutPriceAxisWidth L)\<rparr> else pw2);
          es = (case pw_state pw3 of
                  Some st \<Rightarrow> [ModelSetPaneHeight st paneHeight]
                | None \<Rightarrow> []);
          (ws, es') = sizePanes env L (Suc paneIndex) rest (js_add accumulatedHeight paneHeight)
      in (pw3 # ws, es @ es'))"

text \<open>The rest of \<^verbatim>\<open>_adjustSizeImpl\<close>, from the constants on.\<close>

definition applyLayout :: "Collaborators \<Rightarrow> ChartWidget \<Rightarrow> jsnum \<Rightarrow> jsnum \<Rightarrow> ChartWidget" where
  "applyLayout env s totalStretch axisWidth =
     (let L = layoutOf env s totalStretch axisWidth;
          (ws, es) = sizePanes env L 0 (paneWidgets s) (Fin 0);
          s1 = emit (es @ [TimeAxisSetSizes (paneWidth L, timeAxisHeight L) axisWidth,
                           ModelSetWidth (paneWidth L)])
                 (s\<lparr>paneWidgets := ws\<rparr>)
      in if \<not> js_eq (priceAxisWidth s1) axisWidth
         then emit [PriceAxisWidthChangedFire axisWidth] (s1\<lparr>priceAxisWidth := axisWidth\<rparr>)
         else s1)"

definition adjustSizeImpl :: "Collaborators \<Rightarrow> ChartWidget \<Rightarrow> error + ChartWidget" where
  "adjustSizeImpl env s =
     bind_result
       (measurePanes env (priceScalePosition (options s) \<noteq> ''none'') (paneWidgets s) (Fin 0) (Fin 0))
       (\<lambda>(totalStretch, axisWidth). Inr (applyLayout env s totalStretch axisWidth))"

subsection \<open>Synchronising the widgets with the model\<close>

text \<open>
  The removal loop of \<^verbatim>\<open>_syncGuiWithModel\<close>, one iteration for each surplus widget:
  the last pane widget is popped (the assertion fails if there is none) and destroyed,
  and so is the last separator, if there is one.
\<close>

definition pop_opt :: "'a list \<Rightarrow> 'a option" where
  "pop_opt xs = (if xs = [] then None else Some (last xs))"

definition removePane :: "ChartWidget \<Rightarrow> ChartWidget" where
  "removePane s =
     (let i = length (paneWidgets s) - 1;
          s1 = emit [TableRemoveChild (PaneWidgetElement i),
                     PaneWidgetUnsubscribeClicked i, PaneWidgetDestroy i]
                 (s\<lparr>paneWidgets := butlast (paneWidgets s)\<rparr>)
      in case pop_opt (paneSeparators s1) of
           None \<Rightarrow> s1
         | Some paneSeparator \<Rightarrow>
             destroySeparator paneSeparator
               (s1\<lparr>paneSeparators := butlast (paneSeparators s1)\<rparr>))"

fun removePanes :: "nat \<Rightarrow> ChartWidget \<Rightarrow> error + ChartWidget" where
  "removePanes 0 s = Inr s"
| "removePanes (Suc k) s =
     bind_result (ensureNotNull (pop_opt (paneWidgets s)))
       (\<lambda>paneWidget. removePanes k (removePane s))"

text \<open>One iteration of the creation loop; \<open>i\<close> is below the number of model panes.\<close>

definition createPane :: "Collaborators \<Rightarrow> nat \<Rightarrow> ChartWidget \<Rightarrow> ChartWidget" where
  "createPane env i s =
     (let paneWidget = newPaneWidget env (modelPanes s ! i);
          s1 = emit [PaneWidgetSubscribeClicked i] s;
          s2 = s1\<lparr>paneWidgets := paneWidgets s1 @ [paneWidget]\<rparr>;
          s3 = (if 1 < i
                then emit [TableInsertBefore (SeparatorElement (i - 1, i))]
                       (s2\<lparr>paneSeparators := paneSeparators s2 @ [(i - 1, i)]\<rparr>)
                else s2)
      in emit [TableInsertBefore (PaneWidgetElement i)] s3)"

text \<open>
  One iteration of the last loop; \<open>i\<close> is below the number of model panes, which is the
  number of pane widgets once the first two loops have run.
\<close>

definition syncPaneState :: "nat \<Rightarrow> ChartWidget \<Rightarrow> ChartWidget" where
  "syncPaneState i s =
     (let state = modelPanes s ! i;
          paneWidget = paneWidgets s ! i
      in if pw_state paneWidget \<noteq> Some state
         then s\<lparr>paneWidgets := (paneWidgets s)[i := paneWidget\<lparr>pw_state := Some state\<rparr>]\<rparr>
         else emit [PaneWidgetUpdatePriceAxisWidget i] s)"

definition syncGuiWithModel :: "Collaborators \<Rightarrow> ChartWidget \<Rightarrow> error + ChartWidget" where
  "syncGuiWithModel env s =
     (let targetPaneWidgetsCount = length (modelPanes s);
          actualPaneWidgetsCount = length (paneWidgets s)
      in bind_result (removePanes (actualPaneWidgetsCount - targetPaneWidgetsCount) s)
           (\<lambda>s1.
              let s2 = fold (createPane env) [actualPaneWidgetsCount..<targetPaneWidgetsCount] s1;
                  s3 = fold syncPaneState [0..<targetPaneWidgetsCount] s2;
                  s4 = updateTimeAxisVisibility s3
              in adjustSizeImpl env s4))"

definition updateGui :: "Collaborators \<Rightarrow> ChartWidget \<Rightarrow> error + ChartWidget" where
  "updateGui env s = syncGuiWithModel env s"

subsection \<open>Painting\<close>

text \<open>The calls of \<^verbatim>\<open>paint\<close>: every pane widget at its own level, then the time axis.\<close>

definition paintEffects :: "InvalidateMask \<Rightarrow> nat \<Rightarrow> Effect list" where
  "paintEffects m n =
     map (\<lambda>i. PaneWidgetPaint i (level (invalidateForPane m i))) [0..<n]
     @ [TimeAxisPaint (fullInvalidation m)]"

definition paint :: "InvalidateMask option \<Rightarrow> ChartWidget \<Rightarrow> ChartWidget" where
  "paint maskArg s =
     (let m = (case maskArg of None \<Rightarrow> newInvalidateMask Full | Some m' \<Rightarrow> m')
      in emit (paintEffects m (length (paneWidgets s))) s)"

text \<open>The autoscale loop of \<^verbatim>\<open>_drawImpl\<close>: the panes whose autoscale request is set, in order.\<close>

definition autoScaleEffects :: "InvalidateMask \<Rightarrow> Pane list \<Rightarrow> Effect list" where
  "autoScaleEffects m panes =
     map (\<lambda>i. PaneMomentaryAutoScale (panes ! i))
       (filter (\<lambda>i. autoScale (invalidateForPane m i)) [0..<length panes])"

text \<open>The last loop of the Full branch: each pane widget is given the model's pane.\<close>

definition setStates :: "Pane list \<Rightarrow> PaneWidget list \<Rightarrow> PaneWidget list" where
  "setStates panes ws =
     map (\<lambda>(i, paneWidget). paneWidget\<lparr>pw_state := nth_opt panes i\<rparr>) (enumerate 0 ws)"

definition drawImpl :: "Collaborators \<Rightarrow> InvalidateMask \<Rightarrow> ChartWidget \<Rightarrow> error + ChartWidget" where
  "drawImpl env m s =
     (let invalidationType = fullInvalidation m
      in bind_result
           (if invalidationType = Full then
              bind_result (updateGui env s)
                (\<lambda>s1.
                   let s2 = (if getFitContent m then emit [TimeScaleFitContent] s1 else s1);
                       s3 = emit (autoScaleEffects m (modelPanes s2)) s2;
                       s4 = emit [TimeAxisUpdate] s3
                   in Inr (s4\<lparr>paneWidgets := setStates (modelPanes s4) (paneWidgets s4)\<rparr>))
            else if invalidationType = Light then
              (let s1 = (if getFitContent m then emit [TimeScaleFitContent] s else s)
               in Inr (emit [TimeAxisUpdate] s1))
            else Inr s)
           (\<lambda>s'. Inr (paint (Some m) s')))"

subsection \<open>Scheduling\<close>

definition invalidateHandler :: "InvalidateMask \<Rightarrow> ChartWidget \<Rightarrow> ChartWidget" where
  "invalidateHandler m s =
     (let s1 = (case invalidateMask s of
                  Some pending \<Rightarrow> s\<lparr>invalidateMask := Some (merge pending m)\<rparr>
                | None \<Rightarrow> s\<lparr>invalidateMask := Some m\<rparr>)
      in if \<not> drawPlanned s1
         then (let handle = Suc (rafLast s1)
               in s1\<lparr>drawPlanned := True, rafLast := handle,
                      rafQueue := rafQueue s1 @ [handle], drawRafId := handle\<rparr>)
         else s1)"

text \<open>The callback \<^verbatim>\<open>_invalidateHandler\<close> hands to \<^verbatim>\<open>requestAnimationFrame\<close>.\<close>

definition drawCallback :: "Collaborators \<Rightarrow> ChartWidget \<Rightarrow> error + ChartWidget" where
  "drawCallback env s =
     (let s1 = s\<lparr>drawPlanned := False, drawRafId := 0\<rparr>
      in case invalidateMask s1 of
           Some m \<Rightarrow> bind_result (drawImpl env m s1) (\<lambda>s2. Inr (s2\<lparr>invalidateMask := None\<rparr>))
         | None \<Rightarrow> Inr s1)"

text \<open>The window runs the oldest pending request, if there is one.\<close>

definition animationFrame :: "Collaborators \<Rightarrow> ChartWidget \<Rightarrow> error + ChartWidget" where
  "animationFrame env s =
     (case rafQueue s of
        [] \<Rightarrow> Inr s
      | handle # rest \<Rightarrow> drawCallback env (s\<lparr>rafQueue := rest\<rparr>))"

text \<open>
  Modelled from the spec: \<^verbatim>\<open>ChartModel.fullUpdate\<close>, which is outside the sources. The
  model marks a Full invalidation mask and notifies the controller through the handler
  it was constructed with, the normal invalidation path.
\<close>

definition fullUpdate :: "ChartWidget \<Rightarrow> ChartWidget" where
  "fullUpdate s = invalidateHandler (newInvalidateMask Full) s"

subsection \<open>Resizing and destroying\<close>

definition resize :: "Collaborators \<Rightarrow> jsnum \<Rightarrow> jsnum \<Rightarrow> bool \<Rightarrow> ChartWidget \<Rightarrow> error + ChartWidget" where
  "resize env h w forceRepaint s =
     (if js_eq (height s) h \<and> js_eq (width s) w then Inr s
      else
        let s1 = s\<lparr>height := h, width := w\<rparr>
        in if \<not> element s1 then Inl TypeError
           else
             let s2 = emit [ElementSetSize h w, TableSetSize h w] s1
             in if forceRepaint then drawImpl env (newInvalidateMask Full) s2
                else Inr (fullUpdate s2))"

definition adjustSize :: "Collaborators \<Rightarrow> ChartWidget \<Rightarrow> error + ChartWidget" where
  "adjustSize env s = bind_result (adjustSizeImpl env s) (\<lambda>s1. Inr (fullUpdate s1))"

text \<open>\<^verbatim>\<open>window.cancelAnimationFrame\<close>: the request of that handle is no longer pending.\<close>

definition cancelAnimationFrame :: "nat \<Rightarrow> ChartWidget \<Rightarrow> ChartWidget" where
  "cancelAnimationFrame handle s = s\<lparr>rafQueue := removeAll handle (rafQueue s)\<rparr>"

definition destroy :: "ChartWidget \<Rightarrow> error + ChartWidget" where
  "destroy s =
     (if \<not> element s then Inl TypeError
      else
        let s1 = emit [ElementRemoveWheelListener] s;
            s2 = (if drawRafId s1 \<noteq> 0 then cancelAnimationFrame (drawRafId s1) s1 else s1);
            s3 = emit [ModelUnsubscribeCrosshairMoved, ModelUnsubscribeOptionsApplied,
                       ModelDestroy] s2;
            s4 = emit (concat (map (\<lambda>i. [TableRemoveChild (PaneWidgetElement i),
                                          PaneWidgetUnsubscribeClicked i, PaneWidgetDestroy i])
                                 [0..<length (paneWidgets s3)])) s3;
            s5 = s4\<lparr>paneWidgets := []\<rparr>;
            s6 = fold destroySeparator (paneSeparators s5) s5;
            s7 = s6\<lparr>paneSeparators := []\<rparr>;
            s8 = emit [TimeAxisDestroy] s7;
            s9 = (if parentElement s8
                  then emit [ParentRemoveChild] (s8\<lparr>parentElement := False\<rparr>) else s8);
            s10 = emit [CrosshairMovedDestroy, ClickedDestroy] s9
        in Inr (s10\<lparr>element := False\<rparr>))"

subsection \<open>The life of a widget\<close>

text \<open>
  What can happen to a widget between its creation and its destruction: the model raises
  an invalidation, the window runs an animation frame, the host resizes or repaints, the
  model's pane list or the options change.
\<close>

datatype Event =
    Invalidate InvalidateMask
  | AnimationFrame
  | Resize jsnum jsnum bool
  | AdjustSize
  | Paint "InvalidateMask option"
  | SyncGui
  | SetPanes "Pane list"
  | SetOptions ChartOptions
  | Attach

fun step :: "Collaborators \<Rightarrow> Event \<Rightarrow> ChartWidget \<Rightarrow> error + ChartWidget" where
  "step env (Invalidate m) s = Inr (invalidateHandler m s)"
| "step env AnimationFrame s = animationFrame env s"
| "step env (Resize h w forceRepaint) s = resize env h w forceRepaint s"
| "step env AdjustSize s = adjustSize env s"
| "step env (Paint m) s = Inr (paint m s)"
| "step env SyncGui s = syncGuiWithModel env s"
| "step env (SetPanes panes) s = Inr (s\<lparr>modelPanes := panes\<rparr>)"
| "step env (SetOptions opts) s = Inr (s\<lparr>options := opts\<rparr>)"
| "step env Attach s = Inr (s\<lparr>parentElement := True\<rparr>)"

fun run :: "Collaborators \<Rightarrow> Event list \<Rightarrow> ChartWidget \<Rightarrow> error + ChartWidget" where
  "run env [] s = Inr s"
| "run env (e # es) s = bind_result (step env e s) (run env es)"



section \<open>Example inputs\<close>


definition exampleSeriesEnv :: "(jsnum, nat \<times> nat, nat \<times> nat) SeriesEnv" where
  "exampleSeriesEnv =
     \<lparr>timeScaleIsEmpty = False, priceScaleIsEmpty = False, visibleBars = Some (1, 2),
      barsSize = 3, firstValue = Some (Fin 100),
      visibleTimedValues = (\<lambda>xs bars. bars),
      fillRawPoints = (\<lambda>xs. [Fin 101, Fin 102, Fin 103]),
      convertToCoordinates = (\<lambda>fv range xs. map (\<lambda>x. js_sub x fv) xs)\<rparr>"

definition exampleColorHelpers :: "(nat \<times> nat \<times> nat) ColorHelpers" where
  "exampleColorHelpers =
     \<lparr>parseRgb = (\<lambda>c. if c = ''#000'' then Inr (0, 0, 0)
                       else if c = ''#FFF'' then Inr (255, 255, 255)
                       else Inl TypeError),
      rgbToBlackWhiteString =
        (\<lambda>(r, g, b) threshold.
           if js_lt (Fin (of_nat ((r + g + b) div 3))) threshold then ''black'' else ''white'')\<rparr>"

definition exampleLightMask :: InvalidateMask where
  "exampleLightMask =
     \<lparr>globalLevel = Light,
      invalidatedPanes = (\<lambda>i. if i = 1 then Some \<lparr>level = Light, autoScale = True\<rparr> else None),
      fitContent = False\<rparr>"

definition exampleFullMask :: InvalidateMask where
  "exampleFullMask = (newInvalidateMask Full)\<lparr>fitContent := True\<rparr>"

definition exampleOptions :: ChartOptions where
  "exampleOptions = \<lparr>priceScalePosition = ''right'', timeScaleVisible = True\<rparr>"

definition exampleCollaborators :: Collaborators where
  "exampleCollaborators =
     \<lparr>stretchFactor =
        (\<lambda>pw. case pw_state pw of
                 None \<Rightarrow> Fin 0
               | Some p \<Rightarrow> if p = 0 then Fin 2000 else Fin 1000),
      optimalWidth = (\<lambda>pw. Some (Fin 50)),
      optimalHeight = Fin 28,
      SEPARATOR_HEIGHT = Fin 1,
      newPaneWidget = (\<lambda>p. \<lparr>pw_state = Some p, pw_size = None, pw_priceAxisSize = None\<rparr>)\<rparr>"

definition exampleIdle :: ChartWidget where
  "exampleIdle = newChartWidget exampleOptions [0, 1]"

definition examplePending :: ChartWidget where
  "examplePending =
     invalidateHandler exampleFullMask (invalidateHandler exampleLightMask exampleIdle)"

definition exampleSized :: ChartWidget where
  "exampleSized = exampleIdle\<lparr>height := Fin 300, width := Fin 400\<rparr>"

definition exampleDrawn :: ChartWidget where
  "exampleDrawn =
     \<lparr>options = exampleOptions,
      paneWidgets =
        [\<lparr>pw_state = Some 0, pw_size = Some (Fin 350, Fin 181), pw_priceAxisSize = Some (Fin 50)\<rparr>,
         \<lparr>pw_state = Some 1, pw_size = Some (Fin 350, Fin 91), pw_priceAxisSize = Some (Fin 50)\<rparr>],
      paneSeparators = [], modelPanes = [0, 1], drawRafId = 0,
      height = Fin 300, width = Fin 400, priceAxisWidth = Fin 50,
      element = True, parentElement = False, invalidateMask = None,
      drawPlanned = False, rafQueue = [], rafLast = 0,
      effects =
        [PaneWidgetSubscribeClicked 0, TableInsertBefore (PaneWidgetElement 0),
         PaneWidgetSubscribeClicked 1, TableInsertBefore (PaneWidgetElement 1),
         PaneWidgetUpdatePriceAxisWidget 0, PaneWidgetUpdatePriceAxisWidget 1,
         TimeAxisSetDisplay '''',
         ModelSetPaneHeight 0 (Fin 181), ModelSetPaneHeight 1 (Fin 91),
         TimeAxisSetSizes (Fin 350, Fin 28) (Fin 50), ModelSetWidth (Fin 350),
         PriceAxisWidthChangedFire (Fin 50),
         TimeScaleFitContent, TimeAxisUpdate,
         PaneWidgetPaint 0 Full, PaneWidgetPaint 1 Full, TimeAxisPaint Full]\<rparr>"


section \<open>Notions used in the statements\<close>

text \<open>The view after the raw point builder has run.\<close>

definition rebuilt ::
  "('item, 'range, 'bars) SeriesEnv \<Rightarrow> ('item, 'range) SeriesPaneViewBase
     \<Rightarrow> ('item, 'range) SeriesPaneViewBase" where
  "rebuilt env v =
     v\<lparr>items := fillRawPoints env (items v), viewCalls := viewCalls v @ [FillRawPoints],
       dataInvalidated := False\<rparr>"

text \<open>What the scheduling of paints reads and writes.\<close>

definition sched :: "ChartWidget \<Rightarrow> bool \<times> nat \<times> InvalidateMask option \<times> nat list \<times> nat" where
  "sched s = (drawPlanned s, drawRafId s, invalidateMask s, rafQueue s, rafLast s)"

text \<open>
  The widget's flags agree with the window: a planned draw is the one pending request,
  whose handle is stored and which has a mask to draw; without a planned draw nothing is
  pending and no mask is kept.
\<close>

definition scheduling_inv :: "ChartWidget \<Rightarrow> bool" where
  "scheduling_inv s =
     (if drawPlanned s
      then rafQueue s = [drawRafId s] \<and> drawRafId s \<noteq> 0 \<and> invalidateMask s \<noteq> None
      else rafQueue s = [] \<and> drawRafId s = 0 \<and> invalidateMask s = None)"

text \<open>Every pane widget has a price axis widget.\<close>

definition axes_present :: "Collaborators \<Rightarrow> bool" where
  "axes_present env = (\<forall>pw. optimalWidth env pw \<noteq> None)"

text \<open>The fields a layout recomputation does not touch.\<close>

definition kept :: "ChartWidget \<Rightarrow> ChartWidget \<Rightarrow> bool" where
  "kept s s' =
     (sched s' = sched s \<and> element s' = element s \<and> parentElement s' = parentElement s \<and>
      modelPanes s' = modelPanes s \<and> options s' = options s \<and>
      height s' = height s \<and> width s' = width s)"

text \<open>The value of a finite number.\<close>

definition fin :: "jsnum \<Rightarrow> rat" where
  "fin x = (case x of Fin r \<Rightarrow> r | _ \<Rightarrow> 0)"



text \<open>
  The stretch factors the second loop reads: each pane widget reports its factor after
  it has been given the model's pane of its index.
\<close>

definition stretchFactorsFrom :: "Collaborators \<Rightarrow> Pane list \<Rightarrow> nat \<Rightarrow> PaneWidget list \<Rightarrow> jsnum list" where
  "stretchFactorsFrom env panes i ws =
     map (\<lambda>(j, pw). stretchFactor env (pw\<lparr>pw_state := nth_opt panes j\<rparr>)) (enumerate i ws)"

text \<open>
  The pane heights as the specification words them, over exact numbers: every pane but the last
  receives the rounded share of the total pane height its stretch factor gives it, the
  last pane receives the height that remains, and no pane receives less than 2.
\<close>

fun claimedHeights :: "rat \<Rightarrow> rat \<Rightarrow> rat \<Rightarrow> rat list \<Rightarrow> rat list" where
  "claimedHeights T tot acc [] = []"
| "claimedHeights T tot acc [sf] = [max (T - acc) 2]"
| "claimedHeights T tot acc (sf # sf' # sfs) =
     (let h = max (of_int \<lfloor>sf * (T / tot) + 1 / 2\<rfloor>) 2
      in h # claimedHeights T tot (acc + h) (sf' # sfs))"


section \<open>The algebra of masks\<close>

lemma maxLevel_assoc: "maxLevel (maxLevel a b) c = maxLevel a (maxLevel b c)"
  by (cases a; cases b; cases c) (simp_all add: maxLevel_def)

lemma maxLevel_idem: "maxLevel a a = a"
  by (simp add: maxLevel_def)

lemma maxLevel_rank: "level_rank (maxLevel a b) = max (level_rank a) (level_rank b)"
  by (simp add: maxLevel_def max_def)

lemma mergePaneInvalidation_assoc:
  "mergePaneInvalidation (mergePaneInvalidation x y) z =
   mergePaneInvalidation x (mergePaneInvalidation y z)"
  by (cases x; cases y; cases z) (auto simp: mergePaneInvalidation_def maxLevel_assoc)

lemma mergePaneInvalidation_idem: "mergePaneInvalidation x x = x"
  by (cases x) (auto simp: mergePaneInvalidation_def maxLevel_idem)

lemma merge_assoc: "merge (merge a b) c = merge a (merge b c)"
  by (simp add: merge_def maxLevel_assoc mergePaneInvalidation_assoc)

lemma merge_idem: "merge a a = a"
  by (simp add: merge_def maxLevel_idem mergePaneInvalidation_idem)

lemma globalLevel_merge:
  "level_rank (globalLevel (merge a b)) = max (level_rank (globalLevel a)) (level_rank (globalLevel b))"
  by (simp add: merge_def maxLevel_rank)

lemma autoScalePanes_merge:
  "autoScalePanes (merge a b) = autoScalePanes a \<union> autoScalePanes b"
  by (auto simp: autoScalePanes_def invalidateForPane_def merge_def mergePaneInvalidation_def
        split: option.splits)

lemma foldl_merge_split:
  "foldl merge m (ms @ n # ns) = merge (foldl merge m ms) (foldl merge n ns)"
proof (induction ns rule: rev_induct)
  case Nil
  show ?case by simp
next
  case (snoc x xs)
  have "foldl merge m (ms @ n # xs @ [x]) = merge (foldl merge m (ms @ n # xs)) x"
    by (simp flip: append_assoc append_Cons)
  then show ?case
    using snoc by (simp add: merge_assoc)
qed

lemma globalLevel_foldl_merge:
  "level_rank (globalLevel (foldl merge m ms)) = Max (level_rank ` globalLevel ` set (m # ms))"
proof (induction ms rule: rev_induct)
  case Nil
  show ?case by simp
next
  case (snoc x xs)
  have "level_rank ` globalLevel ` set (m # xs @ [x]) =
      insert (level_rank (globalLevel x)) (level_rank ` globalLevel ` set (m # xs))"
    by auto
  then show ?case
    using snoc by (simp add: globalLevel_merge max.commute)
qed

lemma autoScalePanes_foldl_merge:
  "autoScalePanes (foldl merge m ms) = (\<Union>x \<in> set (m # ms). autoScalePanes x)"
  by (induction ms rule: rev_induct) (auto simp: autoScalePanes_merge)

section \<open>The pending mask\<close>

lemma invalidateMask_invalidateHandler:
  "invalidateMask (invalidateHandler m s) =
     Some (case invalidateMask s of None \<Rightarrow> m | Some pending \<Rightarrow> merge pending m)"
  by (simp add: invalidateHandler_def Let_def split: option.splits)

lemma invalidateMask_fold_invalidateHandler:
  "invalidateMask s = Some pending \<Longrightarrow>
     invalidateMask (fold invalidateHandler ms s) = Some (foldl merge pending ms)"
  by (induction ms arbitrary: s pending) (simp_all add: invalidateMask_invalidateHandler)

section \<open>Evaluating the rounding\<close>

lemma floor_rat_numeral [simp]:
  "\<lfloor>(numeral a :: rat) / numeral b\<rfloor> = numeral a div numeral b"
  using floor_divide_of_int_eq [of "numeral a" "numeral b", where ?'a = rat] by simp

section \<open>What the drawing methods leave alone\<close>

lemma bind_result_Inr:
  "bind_result r f = Inr y \<longleftrightarrow> (\<exists>x. r = Inr x \<and> f x = Inr y)"
  by (cases r) (simp_all add: bind_result_def)

lemma sched_emit [simp]: "sched (emit es s) = sched s"
  by (simp add: sched_def emit_def)

lemma emit_fields [simp]:
  "paneWidgets (emit es s) = paneWidgets s"
  "paneSeparators (emit es s) = paneSeparators s"
  "modelPanes (emit es s) = modelPanes s"
  "options (emit es s) = options s"
  "height (emit es s) = height s"
  "width (emit es s) = width s"
  "priceAxisWidth (emit es s) = priceAxisWidth s"
  "element (emit es s) = element s"
  "parentElement (emit es s) = parentElement s"
  "effects (emit es s) = effects s @ es"
  "drawPlanned (emit es s) = drawPlanned s"
  "drawRafId (emit es s) = drawRafId s"
  "invalidateMask (emit es s) = invalidateMask s"
  "rafQueue (emit es s) = rafQueue s"
  "rafLast (emit es s) = rafLast s"
  by (simp_all add: emit_def)

lemma length_sizePanes:
  "length (fst (sizePanes env L i ws acc)) = length ws"
  by (induction ws arbitrary: i acc) (simp_all add: Let_def case_prod_beta)

lemma kept_refl [simp]: "kept s s"
  by (simp add: kept_def)

lemma kept_trans: "kept s s1 \<Longrightarrow> kept s1 s2 \<Longrightarrow> kept s s2"
  by (simp add: kept_def)

lemma kept_emit [simp]: "kept s (emit es s') = kept s s'"
  by (simp add: kept_def)

lemma applyLayout_kept:
  "kept s (applyLayout env s ts aw) \<and>
   length (paneWidgets (applyLayout env s ts aw)) = length (paneWidgets s) \<and>
   paneSeparators (applyLayout env s ts aw) = paneSeparators s"
  by (simp add: applyLayout_def Let_def case_prod_beta kept_def sched_def length_sizePanes)

lemma adjustSizeImpl_Inr:
  "adjustSizeImpl env s = Inr s' \<longleftrightarrow>
     (\<exists>ts aw. measurePanes env (priceScalePosition (options s) \<noteq> ''none'') (paneWidgets s)
                 (Fin 0) (Fin 0) = Inr (ts, aw) \<and>
              s' = applyLayout env s ts aw)"
  by (auto simp: adjustSizeImpl_def bind_result_Inr)

lemma adjustSizeImpl_kept:
  assumes "adjustSizeImpl env s = Inr s'"
  shows "kept s s' \<and> length (paneWidgets s') = length (paneWidgets s) \<and>
         paneSeparators s' = paneSeparators s"
  using assms applyLayout_kept by (auto simp: adjustSizeImpl_Inr)

lemma kept_removePane: "kept s (removePane s)"
  by (simp add: removePane_def Let_def kept_def sched_def destroySeparator_def
        split: option.splits)

lemma length_removePane:
  "length (paneWidgets (removePane s)) = length (paneWidgets s) - 1"
  by (simp add: removePane_def Let_def destroySeparator_def split: option.splits)

lemma removePanes_returns:
  "k \<le> length (paneWidgets s) \<Longrightarrow>
     \<exists>s'. removePanes k s = Inr s' \<and> kept s s' \<and>
          length (paneWidgets s') = length (paneWidgets s) - k"
proof (induction k arbitrary: s)
  case 0
  show ?case by simp
next
  case (Suc k)
  then have ne: "paneWidgets s \<noteq> []" by auto
  from Suc.prems have "k \<le> length (paneWidgets (removePane s))"
    by (simp add: length_removePane)
  from Suc.IH [OF this] obtain s' where
    s': "removePanes k (removePane s) = Inr s'" "kept (removePane s) s'"
      "length (paneWidgets s') = length (paneWidgets (removePane s)) - k"
    by blast
  have "removePanes (Suc k) s = Inr s'"
    using ne s'(1) by (simp add: pop_opt_def ensureNotNull_def bind_result_def)
  moreover have "kept s s'"
    using kept_removePane s'(2) by (rule kept_trans)
  ultimately show ?case
    using s'(3) by (simp add: length_removePane)
qed

lemma kept_createPane: "kept s (createPane env i s)"
  by (simp add: createPane_def Let_def kept_def sched_def)

lemma length_createPane:
  "length (paneWidgets (createPane env i s)) = Suc (length (paneWidgets s))"
  by (simp add: createPane_def Let_def)

lemma fold_createPane:
  "kept s (fold (createPane env) is s) \<and>
   length (paneWidgets (fold (createPane env) is s)) = length (paneWidgets s) + length is"
proof (induction "is" arbitrary: s)
  case Nil
  show ?case by simp
next
  case (Cons i "is")
  from Cons [of "createPane env i s"] kept_createPane [of s env i]
  show ?case by (auto simp: length_createPane intro: kept_trans)
qed

lemma kept_syncPaneState: "kept s (syncPaneState i s)"
  by (simp add: syncPaneState_def Let_def kept_def sched_def)

lemma length_syncPaneState:
  "length (paneWidgets (syncPaneState i s)) = length (paneWidgets s)"
  by (simp add: syncPaneState_def Let_def)

lemma fold_syncPaneState:
  "kept s (fold syncPaneState is s) \<and>
   length (paneWidgets (fold syncPaneState is s)) = length (paneWidgets s)"
proof (induction "is" arbitrary: s)
  case Nil
  show ?case by simp
next
  case (Cons i "is")
  from Cons [of "syncPaneState i s"] kept_syncPaneState [of s i]
  show ?case by (auto simp: length_syncPaneState intro: kept_trans)
qed

lemma kept_updateTimeAxisVisibility: "kept s (updateTimeAxisVisibility s)"
  by (simp add: updateTimeAxisVisibility_def Let_def)

text \<open>The widget list after the three loops, before the layout is recomputed.\<close>

lemma syncGuiWithModel_Inr:
  assumes "syncGuiWithModel env s = Inr s'"
  shows "\<exists>s0. adjustSizeImpl env s0 = Inr s' \<and> kept s s0 \<and>
              length (paneWidgets s0) = length (modelPanes s)"
proof -
  let ?t = "length (modelPanes s)" and ?a = "length (paneWidgets s)"
  from assms obtain s1 where
    r: "removePanes (?a - ?t) s = Inr s1" and
    a: "adjustSizeImpl env
          (updateTimeAxisVisibility
             (fold syncPaneState [0..<?t] (fold (createPane env) [?a..<?t] s1))) = Inr s'"
    by (auto simp: syncGuiWithModel_def Let_def bind_result_Inr)
  let ?s2 = "fold (createPane env) [?a..<?t] s1"
  let ?s3 = "fold syncPaneState [0..<?t] ?s2"
  let ?s4 = "updateTimeAxisVisibility ?s3"
  from removePanes_returns [of "?a - ?t" s] r
  have k1: "kept s s1" and l1: "length (paneWidgets s1) = ?a - (?a - ?t)"
    by auto
  have k2: "kept s1 ?s2" and l2: "length (paneWidgets ?s2) = length (paneWidgets s1) + (?t - ?a)"
    using fold_createPane [of s1 env "[?a..<?t]"] by auto
  have k3: "kept ?s2 ?s3" and l3: "length (paneWidgets ?s3) = length (paneWidgets ?s2)"
    using fold_syncPaneState [of ?s2 "[0..<?t]"] by auto
  have k4: "kept ?s3 ?s4" and l4: "length (paneWidgets ?s4) = length (paneWidgets ?s3)"
    by (simp_all add: kept_updateTimeAxisVisibility updateTimeAxisVisibility_def Let_def)
  have "kept s ?s4"
    using k1 k2 k3 k4 by (blast intro: kept_trans)
  moreover have "length (paneWidgets ?s4) = ?t"
    using l1 l2 l3 l4 by arith
  ultimately show ?thesis
    using a by blast
qed

lemma syncGuiWithModel_kept:
  assumes "syncGuiWithModel env s = Inr s'"
  shows "kept s s' \<and> length (paneWidgets s') = length (modelPanes s)"
proof -
  from syncGuiWithModel_Inr [OF assms] obtain s0 where
    "adjustSizeImpl env s0 = Inr s'" "kept s s0" "length (paneWidgets s0) = length (modelPanes s)"
    by blast
  with adjustSizeImpl_kept [of env s0 s'] show ?thesis
    by (auto intro: kept_trans)
qed

lemma measurePanes_returns:
  "axes_present env \<Longrightarrow> \<exists>r. measurePanes env b ws ts aw = Inr r"
proof (induction ws arbitrary: ts aw)
  case Nil
  show ?case by simp
next
  case (Cons pw ws)
  from Cons.prems obtain ow where ow: "optimalWidth env pw = Some ow"
    by (auto simp: axes_present_def)
  show ?case
  proof (cases b)
    case True
    with Cons.IH [OF Cons.prems, of "js_add ts (stretchFactor env pw)" "js_max aw ow"] ow
    show ?thesis by (simp add: ensureNotNull_def bind_result_def)
  next
    case False
    with Cons.IH [OF Cons.prems, of "js_add ts (stretchFactor env pw)" aw]
    show ?thesis by simp
  qed
qed

lemma adjustSizeImpl_returns:
  "axes_present env \<Longrightarrow> \<exists>s'. adjustSizeImpl env s = Inr s'"
  using measurePanes_returns [of env "priceScalePosition (options s) \<noteq> ''none''" "paneWidgets s" "Fin 0" "Fin 0"]
  by (auto simp: adjustSizeImpl_Inr)

lemma syncGuiWithModel_returns:
  assumes "axes_present env"
  shows "\<exists>s'. syncGuiWithModel env s = Inr s'"
proof -
  let ?t = "length (modelPanes s)" and ?a = "length (paneWidgets s)"
  from removePanes_returns [of "?a - ?t" s] obtain s1 where
    r: "removePanes (?a - ?t) s = Inr s1" by auto
  from adjustSizeImpl_returns [OF assms] obtain s' where
    "adjustSizeImpl env
       (updateTimeAxisVisibility
          (fold syncPaneState [0..<?t] (fold (createPane env) [?a..<?t] s1))) = Inr s'"
    by blast
  with r show ?thesis
    by (auto simp: syncGuiWithModel_def Let_def bind_result_def)
qed

section \<open>Drawing\<close>

lemma length_setStates [simp]: "length (setStates panes ws) = length ws"
  by (simp add: setStates_def)

lemma kept_paint: "kept s (paint m s)"
  by (simp add: paint_def Let_def)

lemma drawImpl_Full:
  assumes "fullInvalidation m = Full"
  shows "drawImpl env m s =
     bind_result (syncGuiWithModel env s)
       (\<lambda>s1. Inr (s1\<lparr>paneWidgets := setStates (modelPanes s1) (paneWidgets s1),
                     effects := effects s1
                       @ (if getFitContent m then [TimeScaleFitContent] else [])
                       @ autoScaleEffects m (modelPanes s1) @ [TimeAxisUpdate]
                       @ paintEffects m (length (paneWidgets s1))\<rparr>))"
proof (cases "syncGuiWithModel env s")
  case (Inl e)
  then show ?thesis
    using assms by (simp add: drawImpl_def updateGui_def bind_result_def)
next
  case (Inr s1)
  then show ?thesis
    using assms
    by (simp add: drawImpl_def updateGui_def bind_result_def Let_def paint_def emit_def)
qed

lemma drawImpl_Light:
  assumes "fullInvalidation m = Light"
  shows "drawImpl env m s =
     Inr (emit ((if getFitContent m then [TimeScaleFitContent] else [])
                @ [TimeAxisUpdate] @ paintEffects m (length (paneWidgets s))) s)"
  using assms by (simp add: drawImpl_def bind_result_def Let_def paint_def emit_def)

lemma drawImpl_LevelNone:
  assumes "fullInvalidation m = LevelNone"
  shows "drawImpl env m s = Inr (emit (paintEffects m (length (paneWidgets s))) s)"
  using assms by (simp add: drawImpl_def bind_result_def Let_def paint_def)

lemma drawImpl_kept:
  assumes "drawImpl env m s = Inr s'"
  shows "kept s s'"
proof (cases "fullInvalidation m")
  case LevelNone
  with assms show ?thesis by (auto simp: drawImpl_LevelNone)
next
  case Light
  with assms show ?thesis by (auto simp: drawImpl_Light)
next
  case Full
  with assms obtain s1 where s1: "syncGuiWithModel env s = Inr s1"
    and s': "s' = s1\<lparr>paneWidgets := setStates (modelPanes s1) (paneWidgets s1),
                     effects := effects s1
                       @ (if getFitContent m then [TimeScaleFitContent] else [])
                       @ autoScaleEffects m (modelPanes s1) @ [TimeAxisUpdate]
                       @ paintEffects m (length (paneWidgets s1))\<rparr>"
    by (auto simp: drawImpl_Full bind_result_Inr)
  from syncGuiWithModel_kept [OF s1] have "kept s s1" by simp
  then show ?thesis
    unfolding s' by (simp add: kept_def sched_def)
qed

lemma drawImpl_returns:
  assumes "axes_present env"
  shows "\<exists>s'. drawImpl env m s = Inr s'"
proof (cases "fullInvalidation m")
  case LevelNone
  then show ?thesis by (simp add: drawImpl_LevelNone)
next
  case Light
  then show ?thesis by (simp add: drawImpl_Light)
next
  case Full
  from syncGuiWithModel_returns [OF assms] obtain s1 where "syncGuiWithModel env s = Inr s1" ..
  with Full show ?thesis by (simp add: drawImpl_Full bind_result_def)
qed

section \<open>Scheduling\<close>

lemma sched_eq:
  assumes "sched s' = sched s"
  shows "drawPlanned s' = drawPlanned s" and "drawRafId s' = drawRafId s"
    and "invalidateMask s' = invalidateMask s" and "rafQueue s' = rafQueue s"
    and "rafLast s' = rafLast s"
proof -
  from assms have c: "drawPlanned s' = drawPlanned s \<and> drawRafId s' = drawRafId s \<and>
      invalidateMask s' = invalidateMask s \<and> rafQueue s' = rafQueue s \<and> rafLast s' = rafLast s"
    unfolding sched_def prod.inject .
  from c show "drawPlanned s' = drawPlanned s" by (elim conjE)
  from c show "drawRafId s' = drawRafId s" by (elim conjE)
  from c show "invalidateMask s' = invalidateMask s" by (elim conjE)
  from c show "rafQueue s' = rafQueue s" by (elim conjE)
  from c show "rafLast s' = rafLast s" by (elim conjE)
qed

lemma scheduling_inv_sched:
  assumes "sched s' = sched s"
  shows "scheduling_inv s' = scheduling_inv s"
  unfolding scheduling_inv_def sched_eq(1) [OF assms] sched_eq(2) [OF assms]
    sched_eq(3) [OF assms] sched_eq(4) [OF assms]
  by (rule refl)

lemma kept_sched: "kept s s' \<Longrightarrow> sched s' = sched s"
  unfolding kept_def by (elim conjE)

lemma kept_element: "kept s s' \<Longrightarrow> element s' = element s"
  unfolding kept_def by (elim conjE)

lemma scheduling_inv_kept: "kept s s' \<Longrightarrow> scheduling_inv s' = scheduling_inv s"
  by (rule scheduling_inv_sched) (rule kept_sched)

lemma invalidateHandler_idle:
  assumes "\<not> drawPlanned s"
  shows "invalidateHandler m s =
     s\<lparr>invalidateMask := Some (case invalidateMask s of None \<Rightarrow> m | Some p \<Rightarrow> merge p m),
       drawPlanned := True, rafLast := Suc (rafLast s),
       rafQueue := rafQueue s @ [Suc (rafLast s)], drawRafId := Suc (rafLast s)\<rparr>"
  using assms by (simp add: invalidateHandler_def Let_def split: option.splits)

lemma invalidateHandler_planned:
  assumes "drawPlanned s"
  shows "invalidateHandler m s =
     s\<lparr>invalidateMask := Some (case invalidateMask s of None \<Rightarrow> m | Some p \<Rightarrow> merge p m)\<rparr>"
  using assms by (simp add: invalidateHandler_def Let_def split: option.splits)

lemma scheduling_inv_invalidateHandler:
  "scheduling_inv s \<Longrightarrow> scheduling_inv (invalidateHandler m s)"
  by (cases "drawPlanned s")
     (simp_all add: invalidateHandler_idle invalidateHandler_planned scheduling_inv_def)

lemma element_invalidateHandler [simp]: "element (invalidateHandler m s) = element s"
  by (cases "drawPlanned s") (simp_all add: invalidateHandler_idle invalidateHandler_planned)

lemma animationFrame_idle:
  "scheduling_inv s \<Longrightarrow> \<not> drawPlanned s \<Longrightarrow> animationFrame env s = Inr s"
  by (simp add: scheduling_inv_def animationFrame_def)

lemma planned_pending:
  "scheduling_inv s \<Longrightarrow> drawPlanned s \<Longrightarrow> \<exists>pending. invalidateMask s = Some pending"
  by (simp add: scheduling_inv_def)

lemma animationFrame_planned:
  assumes "scheduling_inv s" "drawPlanned s" "invalidateMask s = Some pending"
  shows "animationFrame env s =
       bind_result
         (drawImpl env pending (s\<lparr>rafQueue := [], drawPlanned := False, drawRafId := 0\<rparr>))
         (\<lambda>s2. Inr (s2\<lparr>invalidateMask := None\<rparr>))"
proof -
  from assms have q: "rafQueue s = [drawRafId s]"
    by (simp add: scheduling_inv_def)
  show ?thesis
    by (simp add: animationFrame_def drawCallback_def Let_def q assms(3))
qed

lemma scheduling_inv_animationFrame:
  assumes "scheduling_inv s" "animationFrame env s = Inr s'"
  shows "scheduling_inv s' \<and> \<not> drawPlanned s' \<and> element s' = element s"
proof (cases "drawPlanned s")
  case False
  with assms animationFrame_idle [of s env] show ?thesis by simp
next
  case True
  let ?s1 = "s\<lparr>rafQueue := [], drawPlanned := False, drawRafId := 0\<rparr>"
  from planned_pending [OF assms(1) True] obtain pending where
    p: "invalidateMask s = Some pending" ..
  from animationFrame_planned [OF assms(1) True p, of env] assms(2) have
    "bind_result (drawImpl env pending ?s1) (\<lambda>s2. Inr (s2\<lparr>invalidateMask := None\<rparr>)) = Inr s'"
    by simp
  then obtain s2 where d: "drawImpl env pending ?s1 = Inr s2"
    and s': "s' = s2\<lparr>invalidateMask := None\<rparr>"
    unfolding bind_result_Inr by auto
  from drawImpl_kept [OF d] have k: "kept ?s1 s2" .
  have 1: "\<not> drawPlanned s2" using sched_eq(1) [OF kept_sched [OF k]] by simp
  have 2: "drawRafId s2 = 0" using sched_eq(2) [OF kept_sched [OF k]] by simp
  have 3: "rafQueue s2 = []" using sched_eq(4) [OF kept_sched [OF k]] by simp
  have 4: "element s2 = element s" using kept_element [OF k] by simp
  show ?thesis
    unfolding s' by (simp add: scheduling_inv_def 1 2 3 4)
qed

lemma resize_same:
  "js_eq (height s) h \<and> js_eq (width s) w \<Longrightarrow> resize env h w f s = Inr s"
  by (simp add: resize_def)

lemma resize_changed:
  assumes "\<not> (js_eq (height s) h \<and> js_eq (width s) w)" "element s"
  shows "resize env h w f s =
           (if f then drawImpl env (newInvalidateMask Full)
                        (emit [ElementSetSize h w, TableSetSize h w] (s\<lparr>height := h, width := w\<rparr>))
            else Inr (invalidateHandler (newInvalidateMask Full)
                        (emit [ElementSetSize h w, TableSetSize h w] (s\<lparr>height := h, width := w\<rparr>))))"
  using assms unfolding resize_def Let_def fullUpdate_def
  by (simp only: if_False simp_thms) simp

lemma resize_gone:
  assumes "\<not> (js_eq (height s) h \<and> js_eq (width s) w)" "\<not> element s"
  shows "resize env h w f s = Inl TypeError"
  using assms unfolding resize_def Let_def
  by (simp only: if_False simp_thms) simp

lemma scheduling_inv_resize:
  assumes "scheduling_inv s" "resize env h w f s = Inr s'"
  shows "scheduling_inv s' \<and> element s' = element s"
proof (cases "js_eq (height s) h \<and> js_eq (width s) w")
  case True
  from resize_same [OF True, of env f] assms show ?thesis by simp
next
  case False
  let ?s2 = "emit [ElementSetSize h w, TableSetSize h w] (s\<lparr>height := h, width := w\<rparr>)"
  have e: "element s"
  proof (rule ccontr)
    assume "\<not> element s"
    from resize_gone [OF False this, of env f] assms(2) show False by simp
  qed
  have i2: "scheduling_inv ?s2" "element ?s2 = element s"
    using assms(1) by (simp_all add: scheduling_inv_def)
  show ?thesis
  proof (cases f)
    case True
    with assms(2) resize_changed [OF False e, of env f]
    have "drawImpl env (newInvalidateMask Full) ?s2 = Inr s'" by simp
    from drawImpl_kept [OF this] have "kept ?s2 s'" .
    from scheduling_inv_kept [OF this] kept_element [OF this] i2 show ?thesis by simp
  next
    case f: False
    with assms(2) resize_changed [OF False e, of env f]
    have "s' = invalidateHandler (newInvalidateMask Full) ?s2" by simp
    with i2 show ?thesis
      by (simp add: scheduling_inv_invalidateHandler)
  qed
qed

lemma scheduling_inv_step:
  assumes "scheduling_inv s" "step env e s = Inr s'"
  shows "scheduling_inv s' \<and> element s' = element s"
proof (cases e)
  case (Invalidate m)
  with assms(2) have "s' = invalidateHandler m s" by simp
  with assms(1) show ?thesis by (simp add: scheduling_inv_invalidateHandler)
next
  case AnimationFrame
  with assms(2) have "animationFrame env s = Inr s'" by simp
  from scheduling_inv_animationFrame [OF assms(1) this] show ?thesis by simp
next
  case (Resize h w f)
  with assms(2) have "resize env h w f s = Inr s'" by simp
  from scheduling_inv_resize [OF assms(1) this] show ?thesis .
next
  case AdjustSize
  with assms(2) have "bind_result (adjustSizeImpl env s) (\<lambda>s1. Inr (fullUpdate s1)) = Inr s'"
    by (simp add: adjustSize_def)
  then obtain s1 where a: "adjustSizeImpl env s = Inr s1"
    and s': "s' = invalidateHandler (newInvalidateMask Full) s1"
    unfolding bind_result_Inr by (auto simp: fullUpdate_def)
  from adjustSizeImpl_kept [OF a] have k: "kept s s1" by simp
  from scheduling_inv_kept [OF k] kept_element [OF k] assms(1) show ?thesis
    unfolding s' by (simp add: scheduling_inv_invalidateHandler)
next
  case (Paint m)
  with assms(2) have s': "s' = paint m s" by simp
  have k: "kept s s'" unfolding s' by (rule kept_paint)
  from scheduling_inv_kept [OF k] kept_element [OF k] assms(1) show ?thesis by simp
next
  case SyncGui
  with assms(2) have "syncGuiWithModel env s = Inr s'" by simp
  from syncGuiWithModel_kept [OF this] have k: "kept s s'" by simp
  from scheduling_inv_kept [OF k] kept_element [OF k] assms(1) show ?thesis by simp
next
  case (SetPanes panes)
  with assms(2) have "s' = s\<lparr>modelPanes := panes\<rparr>" by simp
  with assms(1) show ?thesis by (simp add: scheduling_inv_def)
next
  case (SetOptions opts)
  with assms(2) have "s' = s\<lparr>options := opts\<rparr>" by simp
  with assms(1) show ?thesis by (simp add: scheduling_inv_def)
next
  case Attach
  with assms(2) have "s' = s\<lparr>parentElement := True\<rparr>" by simp
  with assms(1) show ?thesis by (simp add: scheduling_inv_def)
qed

lemma scheduling_inv_run:
  "scheduling_inv s \<Longrightarrow> run env es s = Inr s' \<Longrightarrow>
     scheduling_inv s' \<and> element s' = element s"
proof (induction es arbitrary: s)
  case Nil
  then show ?case by simp
next
  case (Cons e es)
  from Cons.prems(2) have "bind_result (step env e s) (run env es) = Inr s'" by simp
  then obtain s1 where 1: "step env e s = Inr s1" and 2: "run env es s1 = Inr s'"
    unfolding bind_result_Inr by auto
  from scheduling_inv_step [OF Cons.prems(1) 1] have "scheduling_inv s1" "element s1 = element s"
    by simp_all
  with Cons.IH [OF _ 2] show ?case by simp
qed

lemma scheduling_inv_new:
  "scheduling_inv (newChartWidget opts panes) \<and> element (newChartWidget opts panes)"
  by (simp add: scheduling_inv_def newChartWidget_def)

section \<open>Drawing a line: non-finite coordinates\<close>



section \<open>The pane view: the empty result\<close>

text \<open>
  C5. When the pane view recomputes its points and the time scale is empty, or the price
  scale is empty, or there are no visible bars, or the series stores no bar, the visible
  items range becomes the empty sentinel \<open>None\<close>, the items are left as they are and no
  coordinate conversion is called. A conversion is called only when none of the four
  conditions holds; then, the series having a first value, the range is set to the
  visible range of the items and the conversion is called once.
\<close>

theorem updatePoints_empty_sentinel:
  "(timeScaleIsEmpty env \<or> priceScaleIsEmpty env \<or> visibleBars env = None \<or> barsSize env = 0 \<longrightarrow>
      updatePoints env v = Inr (v\<lparr>itemsVisibleRange := None\<rparr>)) \<and>
   (updatePoints env v = Inr v' \<and> viewCalls v' \<noteq> viewCalls v \<longrightarrow>
      \<not> timeScaleIsEmpty env \<and> \<not> priceScaleIsEmpty env \<and> visibleBars env \<noteq> None \<and>
      barsSize env \<noteq> 0) \<and>
   (\<not> timeScaleIsEmpty env \<and> \<not> priceScaleIsEmpty env \<and> visibleBars env = Some bars \<and>
    barsSize env \<noteq> 0 \<and> firstValue env = Some fv \<longrightarrow>
      updatePoints env v =
        Inr (v\<lparr>itemsVisibleRange := Some (visibleTimedValues env (items v) bars),
               items := convertToCoordinates env fv
                          (Some (visibleTimedValues env (items v) bars)) (items v),
               viewCalls := viewCalls v @ [ConvertToCoordinates fv]\<rparr>))"
  by (auto simp: updatePoints_def bind_result_def ensureNotNull_def Let_def
        split: option.splits if_splits)

theorem updatePoints_empty_sentinel_witness:
  "updatePoints (exampleSeriesEnv\<lparr>barsSize := 0\<rparr>)
       (newSeriesPaneViewBase\<lparr>items := [Fin 101], itemsVisibleRange := Some (0, 1)\<rparr>) =
     Inr (newSeriesPaneViewBase\<lparr>items := [Fin 101], itemsVisibleRange := None\<rparr>) \<and>
   updatePoints exampleSeriesEnv (newSeriesPaneViewBase\<lparr>items := [Fin 101]\<rparr>) =
     Inr (newSeriesPaneViewBase
            \<lparr>items := [Fin 1], itemsVisibleRange := Some (1, 2),
              viewCalls := [ConvertToCoordinates (Fin 100)]\<rparr>)"
  using updatePoints_empty_sentinel
      [of "exampleSeriesEnv\<lparr>barsSize := 0\<rparr>"
          "newSeriesPaneViewBase\<lparr>items := [Fin 101], itemsVisibleRange := Some (0, 1)\<rparr>"]
    updatePoints_empty_sentinel
      [of exampleSeriesEnv "newSeriesPaneViewBase\<lparr>items := [Fin 101]\<rparr>" _ "(1, 2)" "Fin 100"]
  by (simp add: exampleSeriesEnv_def newSeriesPaneViewBase_def js_sub_def)

section \<open>The pane view: dirty flags\<close>

lemma updatePoints_keeps_flags:
  "updatePoints env v = Inr v' \<Longrightarrow>
     invalidated v' = invalidated v \<and> dataInvalidated v' = dataInvalidated v \<and>
     count_list (viewCalls v') FillRawPoints = count_list (viewCalls v) FillRawPoints"
  by (auto simp: updatePoints_def bind_result_def ensureNotNull_def Let_def
        split: option.splits if_splits)

lemma updatePoints_returns:
  "firstValue env \<noteq> None \<Longrightarrow> \<exists>v'. updatePoints env v = Inr v'"
  by (auto simp: updatePoints_def bind_result_def ensureNotNull_def Let_def
        split: option.splits if_splits)

lemma makeValid_cases:
  "makeValid env v =
     (if dataInvalidated v then
        (if invalidated v
         then bind_result (updatePoints env (rebuilt env v)) (\<lambda>v2. Inr (v2\<lparr>invalidated := False\<rparr>))
         else Inr (rebuilt env v))
      else
        (if invalidated v
         then bind_result (updatePoints env v) (\<lambda>v2. Inr (v2\<lparr>invalidated := False\<rparr>))
         else Inr v))"
  by (simp add: makeValid_def rebuilt_def Let_def)

lemma makeValid_flags:
  assumes "makeValid env v = Inr v'"
  shows "\<not> invalidated v' \<and> \<not> dataInvalidated v' \<and>
      count_list (viewCalls v') FillRawPoints =
        count_list (viewCalls v) FillRawPoints + (if dataInvalidated v then 1 else 0)"
proof (cases "invalidated v")
  case False
  with assms show ?thesis
    by (cases "dataInvalidated v") (auto simp: makeValid_cases rebuilt_def)
next
  case True
  let ?v1 = "if dataInvalidated v then rebuilt env v else v"
  from True assms obtain v2 where up: "updatePoints env ?v1 = Inr v2"
    and v': "v' = v2\<lparr>invalidated := False\<rparr>"
    by (auto simp: makeValid_cases bind_result_Inr split: if_splits)
  from updatePoints_keeps_flags [OF up]
  have "dataInvalidated v2 = dataInvalidated ?v1"
    and "count_list (viewCalls v2) FillRawPoints = count_list (viewCalls ?v1) FillRawPoints"
    by simp_all
  then show ?thesis
    using v' by (simp add: rebuilt_def)
qed

lemma makeValid_returns:
  assumes "firstValue env \<noteq> None"
  shows "\<exists>v'. makeValid env v = Inr v'"
proof -
  obtain a where a: "updatePoints env v = Inr a"
    using updatePoints_returns [OF assms] by blast
  obtain b where b: "updatePoints env (rebuilt env v) = Inr b"
    using updatePoints_returns [OF assms] by blast
  show ?thesis
    by (simp add: makeValid_cases a b bind_result_def)
qed

text \<open>
  C6. \<open>update\<close> always sets the geometry-dirty flag; it sets the data-dirty flag when
  the update type is \<open>data\<close> and leaves it as it was for every other type, the omitted
  one included. The resolution step \<open>makeValid\<close> calls the raw point builder once when the
  view is data-dirty and not at all otherwise, recomputes the projected points exactly
  when the view is geometry-dirty (after the rebuild, if any), and changes nothing on a
  clean view. Whenever it returns, both flags are false, and it returns whenever the
  series has a first value.
\<close>

theorem update_and_makeValid_flags:
  "invalidated (update updateType v) \<and>
   (updateType = Some ''data'' \<longrightarrow> dataInvalidated (update updateType v)) \<and>
   (updateType \<noteq> Some ''data'' \<longrightarrow>
      dataInvalidated (update updateType v) = dataInvalidated v) \<and>
   items (update updateType v) = items v \<and>
   itemsVisibleRange (update updateType v) = itemsVisibleRange v \<and>
   (makeValid env v = Inr v' \<longrightarrow>
      \<not> invalidated v' \<and> \<not> dataInvalidated v' \<and>
      count_list (viewCalls v') FillRawPoints =
        count_list (viewCalls v) FillRawPoints + (if dataInvalidated v then 1 else 0)) \<and>
   (\<not> dataInvalidated v \<and> \<not> invalidated v \<longrightarrow> makeValid env v = Inr v) \<and>
   (\<not> dataInvalidated v \<and> invalidated v \<longrightarrow>
      makeValid env v =
        bind_result (updatePoints env v) (\<lambda>v2. Inr (v2\<lparr>invalidated := False\<rparr>))) \<and>
   (dataInvalidated v \<and> \<not> invalidated v \<longrightarrow>
      makeValid env v =
        Inr (v\<lparr>items := fillRawPoints env (items v),
               viewCalls := viewCalls v @ [FillRawPoints], dataInvalidated := False\<rparr>)) \<and>
   (dataInvalidated v \<and> invalidated v \<longrightarrow>
      makeValid env v =
        bind_result
          (updatePoints env
             (v\<lparr>items := fillRawPoints env (items v),
                 viewCalls := viewCalls v @ [FillRawPoints], dataInvalidated := False\<rparr>))
          (\<lambda>v2. Inr (v2\<lparr>invalidated := False\<rparr>))) \<and>
   (firstValue env \<noteq> None \<longrightarrow> (\<exists>v''. makeValid env v = Inr v''))"
proof -
  have u: "invalidated (update updateType v) \<and>
     (updateType = Some ''data'' \<longrightarrow> dataInvalidated (update updateType v)) \<and>
     (updateType \<noteq> Some ''data'' \<longrightarrow>
        dataInvalidated (update updateType v) = dataInvalidated v) \<and>
     items (update updateType v) = items v \<and>
     itemsVisibleRange (update updateType v) = itemsVisibleRange v"
    by (simp add: update_def Let_def)
  have c: "(\<not> dataInvalidated v \<and> \<not> invalidated v \<longrightarrow> makeValid env v = Inr v) \<and>
     (\<not> dataInvalidated v \<and> invalidated v \<longrightarrow>
        makeValid env v =
          bind_result (updatePoints env v) (\<lambda>v2. Inr (v2\<lparr>invalidated := False\<rparr>))) \<and>
     (dataInvalidated v \<and> \<not> invalidated v \<longrightarrow>
        makeValid env v =
          Inr (v\<lparr>items := fillRawPoints env (items v),
                 viewCalls := viewCalls v @ [FillRawPoints], dataInvalidated := False\<rparr>)) \<and>
     (dataInvalidated v \<and> invalidated v \<longrightarrow>
        makeValid env v =
          bind_result
            (updatePoints env
               (v\<lparr>items := fillRawPoints env (items v),
                   viewCalls := viewCalls v @ [FillRawPoints], dataInvalidated := False\<rparr>))
            (\<lambda>v2. Inr (v2\<lparr>invalidated := False\<rparr>)))"
    by (simp add: makeValid_cases rebuilt_def)
  from u c makeValid_flags [of env v v'] makeValid_returns [of env v]
  show ?thesis by blast
qed

theorem update_and_makeValid_flags_witness:
  "invalidated (update None (newSeriesPaneViewBase :: (jsnum, nat \<times> nat) SeriesPaneViewBase)) \<and>
   dataInvalidated (update (Some ''data'')
      ((newSeriesPaneViewBase :: (jsnum, nat \<times> nat) SeriesPaneViewBase)\<lparr>dataInvalidated := False\<rparr>)) \<and>
   \<not> invalidated (projr (makeValid exampleSeriesEnv newSeriesPaneViewBase)) \<and>
   makeValid exampleSeriesEnv newSeriesPaneViewBase =
     Inr \<lparr>invalidated = False, dataInvalidated = False, items = [Fin 1, Fin 2, Fin 3],
          itemsVisibleRange = Some (1, 2),
          viewCalls = [FillRawPoints, ConvertToCoordinates (Fin 100)]\<rparr>"
proof -
  let ?v = "(newSeriesPaneViewBase :: (jsnum, nat \<times> nat) SeriesPaneViewBase)\<lparr>dataInvalidated := False\<rparr>"
  have 1: "invalidated (update None (newSeriesPaneViewBase :: (jsnum, nat \<times> nat) SeriesPaneViewBase))"
    by (rule update_and_makeValid_flags [THEN conjunct1])
  have 2: "dataInvalidated (update (Some ''data'') ?v)"
    by (rule update_and_makeValid_flags [THEN conjunct2, THEN conjunct1, THEN mp, OF refl])
  have 4: "makeValid exampleSeriesEnv newSeriesPaneViewBase =
     Inr \<lparr>invalidated = False, dataInvalidated = False, items = [Fin 1, Fin 2, Fin 3],
          itemsVisibleRange = Some (1, 2),
          viewCalls = [FillRawPoints, ConvertToCoordinates (Fin 100)]\<rparr>"
    by (simp add: makeValid_def exampleSeriesEnv_def newSeriesPaneViewBase_def js_sub_def
          updatePoints_def bind_result_def ensureNotNull_def)
  have 3: "\<not> invalidated (projr (makeValid exampleSeriesEnv newSeriesPaneViewBase))"
    using update_and_makeValid_flags
      [THEN conjunct2, THEN conjunct2, THEN conjunct2, THEN conjunct2, THEN conjunct2,
       THEN conjunct1, THEN mp, OF 4]
    by (simp add: 4)
  show ?thesis
    by (intro conjI) (rule 1, rule 2, rule 3, rule 4)
qed

section \<open>The price axis view: text colour\<close>

text \<open>
  C9. \<open>generateTextColor\<close> depends on nothing but the background string (and the colour
  helpers): the view it is called on has no influence on the result. Whenever the parser
  accepts the background, the result is \<open>white\<close> if the background quantizes to \<open>black\<close>
  at the threshold 160 and \<open>black\<close> otherwise, so it is one of the two; when the parser
  rejects the background, its exception is the result.
\<close>

theorem generateTextColor_black_or_white:
  "generateTextColor helpers v bg = generateTextColor helpers v' bg \<and>
   (parseRgb helpers bg = Inr rgb \<longrightarrow>
      generateTextColor helpers v bg =
        Inr (if rgbToBlackWhiteString helpers rgb (Fin 160) = ''black''
             then ''white'' else ''black'') \<and>
      (generateTextColor helpers v bg = Inr ''black'' \<or>
       generateTextColor helpers v bg = Inr ''white'')) \<and>
   (parseRgb helpers bg = Inl e \<longrightarrow> generateTextColor helpers v bg = Inl e)"
  by (simp add: generateTextColor_def bind_result_def)

theorem generateTextColor_black_or_white_witness:
  "generateTextColor exampleColorHelpers newPriceAxisView ''#000'' = Inr ''white'' \<and>
   generateTextColor exampleColorHelpers newPriceAxisView ''#FFF'' = Inr ''black'' \<and>
   color exampleColorHelpers newPriceAxisView = Inr ''white''"
  using generateTextColor_black_or_white
      [of exampleColorHelpers newPriceAxisView "''#000''" newPriceAxisView "(0, 0, 0)"]
    generateTextColor_black_or_white
      [of exampleColorHelpers newPriceAxisView "''#FFF''" newPriceAxisView "(255, 255, 255)"]
  by (simp add: exampleColorHelpers_def color_def background_def newPriceAxisView_def)

section \<open>Merging invalidation masks\<close>

text \<open>
  C1. The severity of a merged mask is the maximum of the two severities and its per-pane
  flag set is the union of the two flag sets (the fit-content request is the disjunction).
  Merge is associative and idempotent. When masks are raised one after the other on a
  controller that has no pending mask, the pending mask is the fold of merge over the
  sequence; the fold can be regrouped at any point of the sequence, its severity is the
  maximum over the sequence and its flag set the union over the sequence.
\<close>

theorem merge_max_union_fold:
  "level_rank (globalLevel (merge a b)) =
     max (level_rank (globalLevel a)) (level_rank (globalLevel b)) \<and>
   autoScalePanes (merge a b) = autoScalePanes a \<union> autoScalePanes b \<and>
   fitContent (merge a b) = (fitContent a \<or> fitContent b) \<and>
   merge (merge a b) c = merge a (merge b c) \<and>
   merge a a = a \<and>
   invalidateMask (fold invalidateHandler (m # ms) (s\<lparr>invalidateMask := None\<rparr>)) =
     Some (foldl merge m ms) \<and>
   foldl merge m (ms @ n # ns) = merge (foldl merge m ms) (foldl merge n ns) \<and>
   level_rank (globalLevel (foldl merge m ms)) =
     Max (level_rank ` globalLevel ` set (m # ms)) \<and>
   autoScalePanes (foldl merge m ms) = (\<Union>x \<in> set (m # ms). autoScalePanes x)"
proof -
  have "invalidateMask (invalidateHandler m (s\<lparr>invalidateMask := None\<rparr>)) = Some m"
    by (simp add: invalidateMask_invalidateHandler)
  then have "invalidateMask (fold invalidateHandler (m # ms) (s\<lparr>invalidateMask := None\<rparr>)) =
      Some (foldl merge m ms)"
    by (simp add: invalidateMask_fold_invalidateHandler)
  moreover have "fitContent (merge a b) = (fitContent a \<or> fitContent b)"
    by (simp add: merge_def)
  ultimately show ?thesis
    by (simp only: globalLevel_merge autoScalePanes_merge merge_assoc merge_idem
          foldl_merge_split globalLevel_foldl_merge autoScalePanes_foldl_merge simp_thms)
qed

theorem merge_max_union_fold_witness:
  "level_rank (globalLevel (merge exampleLightMask exampleFullMask)) = 2 \<and>
   autoScalePanes (merge exampleLightMask exampleFullMask) = {1} \<and>
   fitContent (merge exampleLightMask exampleFullMask) \<and>
   invalidateMask
     (fold invalidateHandler [exampleLightMask, exampleFullMask]
        ((newChartWidget exampleOptions [0])\<lparr>invalidateMask := None\<rparr>)) =
     Some (merge exampleLightMask exampleFullMask)"
proof -
  note T = merge_max_union_fold
    [of exampleLightMask exampleFullMask _ exampleLightMask "[exampleFullMask]"
        "newChartWidget exampleOptions [0]"]
  have 1: "level_rank (globalLevel (merge exampleLightMask exampleFullMask)) = 2"
    using T [THEN conjunct1]
    by (simp add: exampleLightMask_def exampleFullMask_def newInvalidateMask_def)
  have 2: "autoScalePanes (merge exampleLightMask exampleFullMask) = {1}"
    using T [THEN conjunct2, THEN conjunct1]
    by (auto simp: exampleLightMask_def exampleFullMask_def newInvalidateMask_def
          autoScalePanes_def invalidateForPane_def split: if_splits)
  have 3: "fitContent (merge exampleLightMask exampleFullMask)"
    using T [THEN conjunct2, THEN conjunct2, THEN conjunct1]
    by (simp add: exampleFullMask_def)
  have 4: "invalidateMask
     (fold invalidateHandler [exampleLightMask, exampleFullMask]
        ((newChartWidget exampleOptions [0])\<lparr>invalidateMask := None\<rparr>)) =
     Some (merge exampleLightMask exampleFullMask)"
    using T [THEN conjunct2, THEN conjunct2, THEN conjunct2, THEN conjunct2, THEN conjunct2,
             THEN conjunct1]
    by simp
  show ?thesis
    by (intro conjI) (rule 1, rule 2, rule 3, rule 4)
qed

section \<open>The controller's two states\<close>

lemma run_append:
  "run env (es @ es') s = bind_result (run env es s) (run env es')"
  by (induction es arbitrary: s) (simp_all add: bind_result_def split: sum.splits)



section \<open>Destroying the widget\<close>

lemma fold_destroySeparator_fields:
  "rafQueue (fold destroySeparator seps s) = rafQueue s \<and>
   drawPlanned (fold destroySeparator seps s) = drawPlanned s \<and>
   drawRafId (fold destroySeparator seps s) = drawRafId s \<and>
   invalidateMask (fold destroySeparator seps s) = invalidateMask s \<and>
   parentElement (fold destroySeparator seps s) = parentElement s \<and>
   paneWidgets (fold destroySeparator seps s) = paneWidgets s"
  by (induction seps arbitrary: s) (simp_all add: destroySeparator_def)

lemma destroy_returns:
  assumes "element s"
  shows "\<exists>d. destroy s = Inr d \<and> \<not> element d \<and> paneWidgets d = [] \<and> paneSeparators d = [] \<and>
     drawPlanned d = drawPlanned s \<and> drawRafId d = drawRafId s \<and>
     invalidateMask d = invalidateMask s \<and>
     rafQueue d = (if drawRafId s \<noteq> 0 then removeAll (drawRafId s) (rafQueue s) else rafQueue s)"
  using assms
  by (simp add: destroy_def Let_def cancelAnimationFrame_def fold_destroySeparator_fields)

lemma run_frames_nothing_pending:
  "rafQueue d = [] \<Longrightarrow> run env (replicate n AnimationFrame) d = Inr d"
  by (induction n) (simp_all add: animationFrame_def bind_result_def)

text \<open>
  C8. Destroying a widget in any state it reaches from its creation succeeds and cancels
  the outstanding paint callback: if a paint is scheduled, the stored handle is non-zero
  and is the one pending request, and after \<open>destroy\<close> no request of the widget is
  pending. Hence no animation frame that follows runs the callback: any number of frames
  leave the destroyed widget as it is, without a single call on a collaborator.
\<close>

theorem destroy_cancels_scheduled_paint:
  assumes "run env es (newChartWidget opts panes) = Inr s"
  shows "(drawPlanned s \<longrightarrow> drawRafId s \<noteq> 0 \<and> rafQueue s = [drawRafId s]) \<and>
    (\<exists>d. destroy s = Inr d \<and> rafQueue d = [] \<and> paneWidgets d = [] \<and> paneSeparators d = [] \<and>
         (\<forall>n. run env (replicate n AnimationFrame) d = Inr d))"
proof -
  from scheduling_inv_run [OF _ assms] scheduling_inv_new [of opts panes]
  have inv: "scheduling_inv s" and el: "element s" by simp_all
  from destroy_returns [OF el] obtain d where
    d: "destroy s = Inr d" "paneWidgets d = []" "paneSeparators d = []"
    and q: "rafQueue d =
       (if drawRafId s \<noteq> 0 then removeAll (drawRafId s) (rafQueue s) else rafQueue s)"
    by (elim exE conjE)
  have planned: "drawRafId s \<noteq> 0 \<and> rafQueue s = [drawRafId s]" if "drawPlanned s"
    using inv that by (simp add: scheduling_inv_def)
  have "rafQueue d = []"
  proof (cases "drawPlanned s")
    case True
    from planned [OF True] q show ?thesis by simp
  next
    case False
    with inv q show ?thesis by (simp add: scheduling_inv_def)
  qed
  with d run_frames_nothing_pending [of d env] planned show ?thesis
    by (intro conjI impI exI [of _ d] allI) simp_all
qed

theorem destroy_cancels_scheduled_paint_witness:
  "drawPlanned examplePending \<and> rafQueue examplePending = [1] \<and>
   rafQueue (projr (destroy examplePending)) = [] \<and>
   run exampleCollaborators [AnimationFrame, AnimationFrame] (projr (destroy examplePending)) =
     Inr (projr (destroy examplePending))"
proof -
  have r2: "run exampleCollaborators [Invalidate exampleLightMask, Invalidate exampleFullMask]
              (newChartWidget exampleOptions [0, 1]) = Inr examplePending"
    by (simp add: examplePending_def exampleIdle_def bind_result_def)
  note T = destroy_cancels_scheduled_paint [OF r2]
  have 1: "drawPlanned examplePending"
    by (simp add: examplePending_def exampleIdle_def newChartWidget_def invalidateHandler_def)
  from T [THEN conjunct1, THEN mp, OF 1] have "rafQueue examplePending = [drawRafId examplePending]"
    by (elim conjE)
  moreover have "drawRafId examplePending = 1"
    by (simp add: examplePending_def exampleIdle_def newChartWidget_def invalidateHandler_def)
  ultimately have 2: "rafQueue examplePending = [1]" by simp
  from T [THEN conjunct2] obtain d where d: "destroy examplePending = Inr d"
    and q: "rafQueue d = []"
    and f: "\<forall>n. run exampleCollaborators (replicate n AnimationFrame) d = Inr d"
    by (elim exE conjE)
  from f have "run exampleCollaborators (replicate 2 AnimationFrame) d = Inr d"
    by (rule spec)
  then have 4: "run exampleCollaborators [AnimationFrame, AnimationFrame] d = Inr d"
    by (simp add: numeral_2_eq_2)
  show ?thesis
    using q 4 unfolding d [symmetric, THEN arg_cong [of _ _ projr], simplified]
    by (intro conjI) (rule 1, rule 2, assumption+)
qed

section \<open>Resizing\<close>

lemma maxLevel_Full [simp]: "maxLevel Full x = Full"
  by (cases x) (simp_all add: maxLevel_def)

lemma paintEffects_Full:
  "fullInvalidation m = Full \<Longrightarrow>
     paintEffects m n = map (\<lambda>i. PaneWidgetPaint i Full) [0..<n] @ [TimeAxisPaint Full]"
  by (simp add: paintEffects_def invalidateForPane_def fullInvalidation_def
        split: option.splits)

lemma kept_dims: "kept s s' \<Longrightarrow> height s' = height s \<and> width s' = width s"
  unfolding kept_def by (elim conjE) simp

lemma kept_modelPanes: "kept s s' \<Longrightarrow> modelPanes s' = modelPanes s"
  unfolding kept_def by (elim conjE)

text \<open>
  C4. \<open>resize\<close> with the stored dimensions (compared with \<^verbatim>\<open>===\<close>) returns the widget as
  it is, whatever \<open>forceRepaint\<close> is. With other dimensions, on a widget that still has
  its element, it stores the dimensions and sets the sizes of the element and the table;
  then, forced, the call is the draw of a new Full mask on that state, which leaves the
  scheduling alone and ends with the paint of every pane and of the time axis at Full;
  not forced, the call draws nothing and is the model's full update on that state: the
  invalidation handler receives a new Full mask, so a draw is planned.
\<close>

theorem resize_noop_or_full_update:
  "(js_eq (height s) h \<and> js_eq (width s) w \<longrightarrow> resize env h w forceRepaint s = Inr s) \<and>
   (\<not> (js_eq (height s) h \<and> js_eq (width s) w) \<and> element s \<longrightarrow>
      resize env h w True s =
        drawImpl env (newInvalidateMask Full)
          (emit [ElementSetSize h w, TableSetSize h w] (s\<lparr>height := h, width := w\<rparr>)) \<and>
      (\<forall>s'. resize env h w True s = Inr s' \<longrightarrow>
         height s' = h \<and> width s' = w \<and> sched s' = sched s \<and>
         (\<exists>pre. effects s' =
            pre @ map (\<lambda>i. PaneWidgetPaint i Full) [0..<length (modelPanes s)]
                @ [TimeAxisPaint Full])) \<and>
      resize env h w False s =
        Inr (fullUpdate
               (emit [ElementSetSize h w, TableSetSize h w] (s\<lparr>height := h, width := w\<rparr>))) \<and>
      (\<forall>s'. resize env h w False s = Inr s' \<longrightarrow>
         height s' = h \<and> width s' = w \<and>
         effects s' = effects s @ [ElementSetSize h w, TableSetSize h w] \<and>
         paneWidgets s' = paneWidgets s \<and>
         drawPlanned s' \<and>
         invalidateMask s' =
           Some (case invalidateMask s of
                   None \<Rightarrow> newInvalidateMask Full
                 | Some pending \<Rightarrow> merge pending (newInvalidateMask Full))))"
proof -
  let ?s2 = "emit [ElementSetSize h w, TableSetSize h w] (s\<lparr>height := h, width := w\<rparr>)"
  have same: "resize env h w forceRepaint s = Inr s"
    if "js_eq (height s) h \<and> js_eq (width s) w"
    using that by (rule resize_same)
  have t: "resize env h w True s = drawImpl env (newInvalidateMask Full) ?s2"
    if a: "\<not> (js_eq (height s) h \<and> js_eq (width s) w) \<and> element s"
    using resize_changed [OF a [THEN conjunct1] a [THEN conjunct2], of env True] by simp
  have f: "resize env h w False s = Inr (fullUpdate ?s2)"
    if a: "\<not> (js_eq (height s) h \<and> js_eq (width s) w) \<and> element s"
    using resize_changed [OF a [THEN conjunct1] a [THEN conjunct2], of env False]
    by (simp add: fullUpdate_def)
  have forced: "height s' = h \<and> width s' = w \<and> sched s' = sched s \<and>
         (\<exists>pre. effects s' =
            pre @ map (\<lambda>i. PaneWidgetPaint i Full) [0..<length (modelPanes s)]
                @ [TimeAxisPaint Full])"
    if a: "\<not> (js_eq (height s) h \<and> js_eq (width s) w) \<and> element s"
      and r: "resize env h w True s = Inr s'" for s'
  proof -
    from r t [OF a] have d: "drawImpl env (newInvalidateMask Full) ?s2 = Inr s'" by simp
    from drawImpl_kept [OF d] have k: "kept ?s2 s'" .
    from kept_dims [OF k] have 1: "height s' = h" "width s' = w" by simp_all
    from kept_sched [OF k] have 2: "sched s' = sched s" by (simp add: sched_def)
    have full: "fullInvalidation (newInvalidateMask Full) = Full"
      by (simp add: fullInvalidation_def newInvalidateMask_def)
    from d have "\<exists>s1. syncGuiWithModel env ?s2 = Inr s1 \<and>
        Inr (s1\<lparr>paneWidgets := setStates (modelPanes s1) (paneWidgets s1),
                effects := effects s1
                  @ (if getFitContent (newInvalidateMask Full) then [TimeScaleFitContent] else [])
                  @ autoScaleEffects (newInvalidateMask Full) (modelPanes s1) @ [TimeAxisUpdate]
                  @ paintEffects (newInvalidateMask Full) (length (paneWidgets s1))\<rparr>) =
          (Inr s' :: error + ChartWidget)"
      unfolding drawImpl_Full [OF full] bind_result_Inr .
    then obtain s1 where s1: "syncGuiWithModel env ?s2 = Inr s1"
      and s': "s' = s1\<lparr>paneWidgets := setStates (modelPanes s1) (paneWidgets s1),
                     effects := effects s1
                       @ (if getFitContent (newInvalidateMask Full) then [TimeScaleFitContent] else [])
                       @ autoScaleEffects (newInvalidateMask Full) (modelPanes s1) @ [TimeAxisUpdate]
                       @ paintEffects (newInvalidateMask Full) (length (paneWidgets s1))\<rparr>"
      by (elim exE conjE) simp
    from syncGuiWithModel_kept [OF s1] have "length (paneWidgets s1) = length (modelPanes s)"
      by simp
    then have "effects s' =
        (effects s1
           @ (if getFitContent (newInvalidateMask Full) then [TimeScaleFitContent] else [])
           @ autoScaleEffects (newInvalidateMask Full) (modelPanes s1) @ [TimeAxisUpdate])
        @ map (\<lambda>i. PaneWidgetPaint i Full) [0..<length (modelPanes s)] @ [TimeAxisPaint Full]"
      unfolding s' by (simp add: paintEffects_Full [OF full])
    then have "\<exists>pre. effects s' =
        pre @ map (\<lambda>i. PaneWidgetPaint i Full) [0..<length (modelPanes s)] @ [TimeAxisPaint Full]"
      by (rule exI)
    with 1 2 show ?thesis by (intro conjI)
  qed
  have deferred: "height s' = h \<and> width s' = w \<and>
         effects s' = effects s @ [ElementSetSize h w, TableSetSize h w] \<and>
         paneWidgets s' = paneWidgets s \<and>
         drawPlanned s' \<and>
         invalidateMask s' =
           Some (case invalidateMask s of
                   None \<Rightarrow> newInvalidateMask Full
                 | Some pending \<Rightarrow> merge pending (newInvalidateMask Full))"
    if a: "\<not> (js_eq (height s) h \<and> js_eq (width s) w) \<and> element s"
      and r: "resize env h w False s = Inr s'" for s'
  proof -
    from r f [OF a] have s': "s' = invalidateHandler (newInvalidateMask Full) ?s2"
      by (simp add: fullUpdate_def)
    show ?thesis
    proof (cases "drawPlanned s")
      case True
      then have "drawPlanned ?s2" by simp
      from invalidateHandler_planned [OF this] show ?thesis
        unfolding s' by (simp add: True)
    next
      case False
      then have "\<not> drawPlanned ?s2" by simp
      from invalidateHandler_idle [OF this] show ?thesis
        unfolding s' by simp
    qed
  qed
  show ?thesis
  proof (intro conjI impI allI)
    assume "js_eq (height s) h \<and> js_eq (width s) w"
    then show "resize env h w forceRepaint s = Inr s" by (rule same)
  next
    assume a: "\<not> (js_eq (height s) h \<and> js_eq (width s) w) \<and> element s"
    then show "resize env h w True s = drawImpl env (newInvalidateMask Full) ?s2" by (rule t)
  next
    assume a: "\<not> (js_eq (height s) h \<and> js_eq (width s) w) \<and> element s"
    then show "resize env h w False s = Inr (fullUpdate ?s2)" by (rule f)
  next
    fix s'
    assume a: "\<not> (js_eq (height s) h \<and> js_eq (width s) w) \<and> element s"
      and r: "resize env h w True s = Inr s'"
    from forced [OF a r] show "height s' = h" by (elim conjE)
    from forced [OF a r] show "width s' = w" by (elim conjE)
    from forced [OF a r] show "sched s' = sched s" by (elim conjE)
    from forced [OF a r] show "\<exists>pre. effects s' =
        pre @ map (\<lambda>i. PaneWidgetPaint i Full) [0..<length (modelPanes s)] @ [TimeAxisPaint Full]"
      by (elim conjE)
  next
    fix s'
    assume a: "\<not> (js_eq (height s) h \<and> js_eq (width s) w) \<and> element s"
      and r: "resize env h w False s = Inr s'"
    from deferred [OF a r] show "height s' = h" by (elim conjE)
    from deferred [OF a r] show "width s' = w" by (elim conjE)
    from deferred [OF a r] show "effects s' = effects s @ [ElementSetSize h w, TableSetSize h w]"
      by (elim conjE)
    from deferred [OF a r] show "paneWidgets s' = paneWidgets s" by (elim conjE)
    from deferred [OF a r] show "drawPlanned s'" by (elim conjE)
    from deferred [OF a r] show "invalidateMask s' =
           Some (case invalidateMask s of
                   None \<Rightarrow> newInvalidateMask Full
                 | Some pending \<Rightarrow> merge pending (newInvalidateMask Full))"
      by (elim conjE)
  qed
qed

theorem resize_noop_or_full_update_witness:
  "resize exampleCollaborators (Fin 0) (Fin 0) True exampleIdle = Inr exampleIdle \<and>
   drawPlanned (projr (resize exampleCollaborators (Fin 300) (Fin 400) False exampleIdle)) \<and>
   effects (projr (resize exampleCollaborators (Fin 300) (Fin 400) False exampleIdle)) =
     [ElementSetSize (Fin 300) (Fin 400), TableSetSize (Fin 300) (Fin 400)] \<and>
   height (projr (resize exampleCollaborators (Fin 300) (Fin 400) True exampleIdle)) = Fin 300 \<and>
   sched (projr (resize exampleCollaborators (Fin 300) (Fin 400) True exampleIdle)) =
     sched exampleIdle"
proof -
  have same: "js_eq (height exampleIdle) (Fin 0) \<and> js_eq (width exampleIdle) (Fin 0)"
    by (simp add: exampleIdle_def newChartWidget_def js_eq_def)
  have other: "\<not> (js_eq (height exampleIdle) (Fin 300) \<and> js_eq (width exampleIdle) (Fin 400)) \<and>
      element exampleIdle"
    by (simp add: exampleIdle_def newChartWidget_def js_eq_def)
  have 1: "resize exampleCollaborators (Fin 0) (Fin 0) True exampleIdle = Inr exampleIdle"
    by (rule resize_noop_or_full_update [THEN conjunct1, THEN mp, OF same])
  note T = resize_noop_or_full_update
    [of exampleIdle "Fin 300" "Fin 400" exampleCollaborators True,
     THEN conjunct2, THEN mp, OF other]
  from T have d: "resize exampleCollaborators (Fin 300) (Fin 400) False exampleIdle =
      Inr (fullUpdate (emit [ElementSetSize (Fin 300) (Fin 400), TableSetSize (Fin 300) (Fin 400)]
             (exampleIdle\<lparr>height := Fin 300, width := Fin 400\<rparr>)))"
    by (elim conjE)
  from T have da: "\<forall>s'. resize exampleCollaborators (Fin 300) (Fin 400) False exampleIdle = Inr s' \<longrightarrow>
         height s' = Fin 300 \<and> width s' = Fin 400 \<and>
         effects s' = effects exampleIdle @ [ElementSetSize (Fin 300) (Fin 400), TableSetSize (Fin 300) (Fin 400)] \<and>
         paneWidgets s' = paneWidgets exampleIdle \<and>
         drawPlanned s' \<and>
         invalidateMask s' =
           Some (case invalidateMask exampleIdle of
                   None \<Rightarrow> newInvalidateMask Full
                 | Some pending \<Rightarrow> merge pending (newInvalidateMask Full))"
    by (elim conjE)
  from da [THEN spec, THEN mp, OF d]
  have 2: "drawPlanned (projr (resize exampleCollaborators (Fin 300) (Fin 400) False exampleIdle))"
    and 3: "effects (projr (resize exampleCollaborators (Fin 300) (Fin 400) False exampleIdle)) =
       [ElementSetSize (Fin 300) (Fin 400), TableSetSize (Fin 300) (Fin 400)]"
    unfolding d by (simp_all add: exampleIdle_def newChartWidget_def)
  from T have f: "resize exampleCollaborators (Fin 300) (Fin 400) True exampleIdle =
        drawImpl exampleCollaborators (newInvalidateMask Full)
          (emit [ElementSetSize (Fin 300) (Fin 400), TableSetSize (Fin 300) (Fin 400)]
             (exampleIdle\<lparr>height := Fin 300, width := Fin 400\<rparr>))"
    by (elim conjE)
  from T have fa: "\<forall>s'. resize exampleCollaborators (Fin 300) (Fin 400) True exampleIdle = Inr s' \<longrightarrow>
         height s' = Fin 300 \<and> width s' = Fin 400 \<and> sched s' = sched exampleIdle \<and>
         (\<exists>pre. effects s' =
            pre @ map (\<lambda>i. PaneWidgetPaint i Full) [0..<length (modelPanes exampleIdle)]
                @ [TimeAxisPaint Full])"
    by (elim conjE)
  have "axes_present exampleCollaborators"
    by (simp add: axes_present_def exampleCollaborators_def)
  from drawImpl_returns [OF this] obtain s' where
    s': "resize exampleCollaborators (Fin 300) (Fin 400) True exampleIdle = Inr s'"
    unfolding f ..
  from fa [THEN spec, THEN mp, OF s']
  have 4: "height (projr (resize exampleCollaborators (Fin 300) (Fin 400) True exampleIdle)) = Fin 300"
    and 5: "sched (projr (resize exampleCollaborators (Fin 300) (Fin 400) True exampleIdle)) =
       sched exampleIdle"
    unfolding s' by simp_all
  show ?thesis
    by (intro conjI) (rule 1, rule 2, rule 3, rule 4, rule 5)
qed

section \<open>The draw step\<close>

lemma paintEffects_Light:
  "fullInvalidation m = Light \<Longrightarrow>
     paintEffects m n =
       map (\<lambda>i. PaneWidgetPaint i (level (invalidateForPane m i))) [0..<n] @ [TimeAxisPaint Light]"
  by (simp add: paintEffects_def)

text \<open>
  C3, as the code has it. When the mask's severity is Full, the draw step re-syncs the
  pane widgets to the model (as many pane widgets as the model has panes), recomputes the
  layout on the re-synced list, applies the fit-content request if it is set, applies the
  autoscale request of each pane that has one, updates the time axis, gives each pane
  widget its pane, and paints every pane and the time axis at Full; it returns whenever
  every pane widget has a price axis widget. When the severity is Light, it leaves the
  pane widgets as they are, with no re-sync, no layout and no autoscale; it applies the
  fit-content request if it is set, updates the time axis and paints every pane at its
  level and the time axis at Light.
\<close>

theorem drawImpl_by_severity:
  "(fullInvalidation m = Full \<and> drawImpl env m s = Inr s' \<longrightarrow>
      (\<exists>s0 s1. kept s s0 \<and> length (paneWidgets s0) = length (modelPanes s) \<and>
         adjustSizeImpl env s0 = Inr s1 \<and>
         s' = s1\<lparr>paneWidgets := setStates (modelPanes s) (paneWidgets s1),
                effects := effects s1
                  @ (if getFitContent m then [TimeScaleFitContent] else [])
                  @ autoScaleEffects m (modelPanes s) @ [TimeAxisUpdate]
                  @ map (\<lambda>i. PaneWidgetPaint i Full) [0..<length (modelPanes s)]
                  @ [TimeAxisPaint Full]\<rparr>) \<and>
      length (paneWidgets s') = length (modelPanes s)) \<and>
   (fullInvalidation m = Full \<and> axes_present env \<longrightarrow> (\<exists>s''. drawImpl env m s = Inr s'')) \<and>
   (fullInvalidation m = Light \<longrightarrow>
      drawImpl env m s =
        Inr (s\<lparr>effects := effects s
               @ (if getFitContent m then [TimeScaleFitContent] else [])
               @ [TimeAxisUpdate]
               @ map (\<lambda>i. PaneWidgetPaint i (level (invalidateForPane m i)))
                   [0..<length (paneWidgets s)]
               @ [TimeAxisPaint Light]\<rparr>))"
proof -
  have full: "(\<exists>s0 s1. kept s s0 \<and> length (paneWidgets s0) = length (modelPanes s) \<and>
         adjustSizeImpl env s0 = Inr s1 \<and>
         s' = s1\<lparr>paneWidgets := setStates (modelPanes s) (paneWidgets s1),
                effects := effects s1
                  @ (if getFitContent m then [TimeScaleFitContent] else [])
                  @ autoScaleEffects m (modelPanes s) @ [TimeAxisUpdate]
                  @ map (\<lambda>i. PaneWidgetPaint i Full) [0..<length (modelPanes s)]
                  @ [TimeAxisPaint Full]\<rparr>) \<and>
      length (paneWidgets s') = length (modelPanes s)"
    if f: "fullInvalidation m = Full" and d: "drawImpl env m s = Inr s'"
  proof -
    from d have "\<exists>s1. syncGuiWithModel env s = Inr s1 \<and>
        Inr (s1\<lparr>paneWidgets := setStates (modelPanes s1) (paneWidgets s1),
                effects := effects s1
                  @ (if getFitContent m then [TimeScaleFitContent] else [])
                  @ autoScaleEffects m (modelPanes s1) @ [TimeAxisUpdate]
                  @ paintEffects m (length (paneWidgets s1))\<rparr>) =
          (Inr s' :: error + ChartWidget)"
      unfolding drawImpl_Full [OF f] bind_result_Inr .
    then obtain s1 where s1: "syncGuiWithModel env s = Inr s1"
      and s': "s' = s1\<lparr>paneWidgets := setStates (modelPanes s1) (paneWidgets s1),
                     effects := effects s1
                       @ (if getFitContent m then [TimeScaleFitContent] else [])
                       @ autoScaleEffects m (modelPanes s1) @ [TimeAxisUpdate]
                       @ paintEffects m (length (paneWidgets s1))\<rparr>"
      by (elim exE conjE) simp
    from syncGuiWithModel_Inr [OF s1] obtain s0 where
      s0: "adjustSizeImpl env s0 = Inr s1" "kept s s0"
          "length (paneWidgets s0) = length (modelPanes s)"
      by (elim exE conjE)
    note k = syncGuiWithModel_kept [OF s1, THEN conjunct1]
    note l = syncGuiWithModel_kept [OF s1, THEN conjunct2]
    have mp: "modelPanes s1 = modelPanes s" using k by (rule kept_modelPanes)
    have e: "s' = s1\<lparr>paneWidgets := setStates (modelPanes s) (paneWidgets s1),
                effects := effects s1
                  @ (if getFitContent m then [TimeScaleFitContent] else [])
                  @ autoScaleEffects m (modelPanes s) @ [TimeAxisUpdate]
                  @ map (\<lambda>i. PaneWidgetPaint i Full) [0..<length (modelPanes s)]
                  @ [TimeAxisPaint Full]\<rparr>"
      unfolding s' mp l paintEffects_Full [OF f] by simp
    have "length (paneWidgets s') = length (modelPanes s)"
      unfolding e by (simp add: l)
    with s0 e show ?thesis by (intro conjI exI [of _ s0] exI [of _ s1])
  qed
  have returns: "\<exists>s''. drawImpl env m s = Inr s''" if "axes_present env"
    using that by (rule drawImpl_returns)
  have light: "drawImpl env m s =
        Inr (s\<lparr>effects := effects s
               @ (if getFitContent m then [TimeScaleFitContent] else [])
               @ [TimeAxisUpdate]
               @ map (\<lambda>i. PaneWidgetPaint i (level (invalidateForPane m i)))
                   [0..<length (paneWidgets s)]
               @ [TimeAxisPaint Light]\<rparr>)"
    if l: "fullInvalidation m = Light"
    unfolding drawImpl_Light [OF l] paintEffects_Light [OF l] by (simp add: emit_def)
  show ?thesis
  proof (intro conjI impI)
    assume a: "fullInvalidation m = Full \<and> drawImpl env m s = Inr s'"
    from full [OF a [THEN conjunct1] a [THEN conjunct2]]
    show "\<exists>s0 s1. kept s s0 \<and> length (paneWidgets s0) = length (modelPanes s) \<and>
         adjustSizeImpl env s0 = Inr s1 \<and>
         s' = s1\<lparr>paneWidgets := setStates (modelPanes s) (paneWidgets s1),
                effects := effects s1
                  @ (if getFitContent m then [TimeScaleFitContent] else [])
                  @ autoScaleEffects m (modelPanes s) @ [TimeAxisUpdate]
                  @ map (\<lambda>i. PaneWidgetPaint i Full) [0..<length (modelPanes s)]
                  @ [TimeAxisPaint Full]\<rparr>"
      by (elim conjE)
    from full [OF a [THEN conjunct1] a [THEN conjunct2]]
    show "length (paneWidgets s') = length (modelPanes s)"
      by (elim conjE)
  next
    assume "fullInvalidation m = Full \<and> axes_present env"
    then have "axes_present env" by (elim conjE)
    then show "\<exists>s''. drawImpl env m s = Inr s''" by (rule returns)
  next
    assume "fullInvalidation m = Light"
    then show "drawImpl env m s =
        Inr (s\<lparr>effects := effects s
               @ (if getFitContent m then [TimeScaleFitContent] else [])
               @ [TimeAxisUpdate]
               @ map (\<lambda>i. PaneWidgetPaint i (level (invalidateForPane m i)))
                   [0..<length (paneWidgets s)]
               @ [TimeAxisPaint Light]\<rparr>)"
      by (rule light)
  qed
qed

theorem light_draw_applies_fit_content:
  "fullInvalidation (exampleLightMask\<lparr>fitContent := True\<rparr>) = Light \<and>
   drawImpl exampleCollaborators (exampleLightMask\<lparr>fitContent := True\<rparr>) exampleIdle =
     Inr (exampleIdle\<lparr>effects := [TimeScaleFitContent, TimeAxisUpdate, TimeAxisPaint Light]\<rparr>)"
proof -
  have l: "fullInvalidation (exampleLightMask\<lparr>fitContent := True\<rparr>) = Light"
    by (simp add: fullInvalidation_def exampleLightMask_def)
  have "drawImpl exampleCollaborators (exampleLightMask\<lparr>fitContent := True\<rparr>) exampleIdle =
     Inr (exampleIdle\<lparr>effects := [TimeScaleFitContent, TimeAxisUpdate, TimeAxisPaint Light]\<rparr>)"
    unfolding drawImpl_Light [OF l] paintEffects_Light [OF l]
    by (simp add: emit_def getFitContent_def exampleIdle_def newChartWidget_def)
  with l show ?thesis by (intro conjI)
qed

lemma example_sync:
  "syncGuiWithModel exampleCollaborators exampleSized =
     Inr (exampleDrawn\<lparr>effects := take 12 (effects exampleDrawn)\<rparr>)"
  by (simp add: syncGuiWithModel_def exampleSized_def exampleIdle_def newChartWidget_def
        exampleCollaborators_def exampleOptions_def exampleDrawn_def
        bind_result_def createPane_def syncPaneState_def updateTimeAxisVisibility_def
        adjustSizeImpl_def applyLayout_def layoutOf_def availablePaneHeight_def
        otherWidgetHeight_def ensureNotNull_def emit_def Let_def nth_opt_def
        js_max_def js_sub_def js_eq_def numeral_2_eq_2)

lemma example_draw:
  "drawImpl exampleCollaborators exampleFullMask exampleSized = Inr exampleDrawn"
proof -
  have full: "fullInvalidation exampleFullMask = Full"
    by (simp add: fullInvalidation_def exampleFullMask_def newInvalidateMask_def)
  show ?thesis
    unfolding drawImpl_Full [OF full] example_sync
    by (simp add: bind_result_def exampleDrawn_def setStates_def autoScaleEffects_def
          paintEffects_def getFitContent_def invalidateForPane_def fullInvalidation_def
          exampleFullMask_def newInvalidateMask_def nth_opt_def numeral_2_eq_2)
qed

theorem drawImpl_by_severity_witness:
  "drawImpl exampleCollaborators exampleFullMask exampleSized = Inr exampleDrawn \<and>
   length (paneWidgets exampleDrawn) = length (modelPanes exampleSized) \<and>
   drawImpl exampleCollaborators exampleLightMask exampleDrawn =
     Inr (exampleDrawn\<lparr>effects := effects exampleDrawn
            @ [TimeAxisUpdate, PaneWidgetPaint 0 Light, PaneWidgetPaint 1 Light,
               TimeAxisPaint Light]\<rparr>)"
proof -
  have full: "fullInvalidation exampleFullMask = Full"
    by (simp add: fullInvalidation_def exampleFullMask_def newInvalidateMask_def)
  have light: "fullInvalidation exampleLightMask = Light"
    by (simp add: fullInvalidation_def exampleLightMask_def)
  note d = example_draw
  have 2: "length (paneWidgets exampleDrawn) = length (modelPanes exampleSized)"
    by (rule drawImpl_by_severity
          [THEN conjunct1, THEN mp, OF conjI [OF full d], THEN conjunct2])
  have 3: "drawImpl exampleCollaborators exampleLightMask exampleDrawn =
     Inr (exampleDrawn\<lparr>effects := effects exampleDrawn
            @ [TimeAxisUpdate, PaneWidgetPaint 0 Light, PaneWidgetPaint 1 Light,
               TimeAxisPaint Light]\<rparr>)"
    unfolding drawImpl_by_severity [THEN conjunct2, THEN conjunct2, THEN mp, OF light]
    by (simp add: exampleDrawn_def getFitContent_def exampleLightMask_def
          invalidateForPane_def maxLevel_def numeral_2_eq_2)
  show ?thesis
    by (intro conjI) (rule d, rule 2, rule 3)
qed

section \<open>The layout of the panes\<close>


lemma fin_Fin [simp]: "fin (Fin r) = r"
  by (simp add: fin_def)

lemma js_max_Fin [simp]: "js_max (Fin a) (Fin b) = Fin (max a b)"
  by (simp add: js_max_def max_def)

lemma js_sub_Fin [simp]: "js_sub (Fin a) (Fin b) = Fin (a - b)"
  by (simp add: js_sub_def)


lemma length_claimedHeights [simp]: "length (claimedHeights T tot acc sfs) = length sfs"
  by (induction T tot acc sfs rule: claimedHeights.induct) (simp_all add: Let_def)

lemma claimedHeights_Nil_iff [simp]: "claimedHeights T tot acc sfs = [] \<longleftrightarrow> sfs = []"
  using length_claimedHeights [of T tot acc sfs] by (metis length_0_conv)





lemma stretchFactorsFrom_Nil [simp]: "stretchFactorsFrom env panes i [] = []"
  by (simp add: stretchFactorsFrom_def)

lemma sizePanes_Nil: "fst (sizePanes env L i [] acc) = []"
  by simp










end
